theory Spec2Isabelle
  imports Main
begin

section \<open>Values of the plan document and Python exceptions\<close>

text \<open>
  The plan is a JSON document read with \<^verbatim>\<open>json.load\<close>.  A Python \<^verbatim>\<open>dict\<close> keeps
  insertion order, so an object is an association list.  A float is given by its
  \<^verbatim>\<open>repr\<close>, the text Python prints for it; the validator only tests a float for being
  zero and prints it.
\<close>

datatype json =
    JNull
  | JBool bool
  | JInt int
  | JFloat string
  | JStr string
  | JList "json list"
  | JObj "(string \<times> json) list"

text \<open>The exceptions the validator can raise and does not catch itself.\<close>

datatype exn =
    TypeError
  | AttributeError
  | KeyError string
  | UnboundLocalError string

subsection \<open>String helpers\<close>

definition endswith :: "string \<Rightarrow> string \<Rightarrow> bool" where
  "endswith s suf = (length suf \<le> length s \<and> drop (length s - length suf) s = suf)"

definition startswith :: "string \<Rightarrow> string \<Rightarrow> bool" where
  "startswith s pre = (take (length pre) s = pre)"

definition digit_char :: "nat \<Rightarrow> char" where
  "digit_char d = ''0123456789'' ! d"

function show_nat :: "nat \<Rightarrow> string" where
  "show_nat n = (if n < 10 then [digit_char n] else show_nat (n div 10) @ [digit_char (n mod 10)])"
  by pat_completeness auto
termination
  by (relation "measure id") auto

declare show_nat.simps [simp del]

definition hex_char :: "nat \<Rightarrow> char" where
  "hex_char d = ''0123456789abcdef'' ! d"

text \<open>
  \<^verbatim>\<open>repr\<close> of a Python string whose characters are ASCII: double quotes are chosen when
  the string holds a single quote and no double quote; the quote and the backslash are
  escaped, tab, newline and carriage return get their letter, other control characters
  the \<^verbatim>\<open>\xNN\<close> form.
\<close>

definition repr_char :: "char \<Rightarrow> char \<Rightarrow> string" where
  "repr_char q c =
     (if c = q \<or> c = CHR 0x5C then [CHR 0x5C, c]
      else if c = CHR 0x09 then [CHR 0x5C, CHR ''t'']
      else if c = CHR 0x0A then [CHR 0x5C, CHR ''n'']
      else if c = CHR 0x0D then [CHR 0x5C, CHR ''r'']
      else if of_char c < (32::nat) \<or> of_char c = (127::nat)
        then [CHR 0x5C, CHR ''x'', hex_char (of_char c div 16), hex_char (of_char c mod 16)]
      else [c])"

definition repr_str :: "string \<Rightarrow> string" where
  "repr_str s =
     (let q = (if CHR 0x27 \<in> set s \<and> CHR 0x22 \<notin> set s then CHR 0x22 else CHR 0x27)
      in [q] @ concat (map (repr_char q) s) @ [q])"

fun join :: "string \<Rightarrow> string list \<Rightarrow> string" where
  "join sep [] = []"
| "join sep [x] = x"
| "join sep (x # y # ys) = x @ sep @ join sep (y # ys)"

definition repr_list :: "string list \<Rightarrow> string" where
  "repr_list xs = ''['' @ join '', '' (map repr_str xs) @ '']''"

text \<open>
  \<^verbatim>\<open>repr\<close> of a non-empty set of strings.  Python leaves the iteration order of a set
  unspecified; the elements are rendered in the order of the list given.
\<close>

definition repr_set :: "string list \<Rightarrow> string" where
  "repr_set xs = ''{'' @ join '', '' (map repr_str xs) @ ''}''"

section \<open>The plan after the structural check\<close>

text \<open>
  \<^verbatim>\<open>run\<close> reaches the sandbox only with a plan on which \<^verbatim>\<open>validate_structure\<close> found
  nothing: every processor then has string \<^verbatim>\<open>id\<close>, \<^verbatim>\<open>name\<close> and \<^verbatim>\<open>type\<close>, and
  every connection string endpoints and a list of relationships.  What the repair oracle
  may overwrite (\<^verbatim>\<open>properties\<close>, \<^verbatim>\<open>scheduling\<close>, \<^verbatim>\<open>auto_terminated_relationships\<close>)
  stays an arbitrary JSON value.
\<close>

record processor =
  proc_id :: string
  proc_name :: string
  proc_type :: string
  properties :: json
  scheduling :: json
  auto_terminated_relationships :: json

record connection =
  from_id :: string
  to_id :: string
  relationships :: "json list"

section \<open>Runtime type resolver: \<^verbatim>\<open>validate_processor_types\<close>\<close>

definition proc_prefix :: "nat \<Rightarrow> string \<Rightarrow> string" where
  "proc_prefix index p_name = ''Processor['' @ show_nat index @ ''] '' @ [CHR 0x27] @ p_name @ [CHR 0x27]"

definition ambiguous_msg :: "nat \<Rightarrow> string \<Rightarrow> string \<Rightarrow> string list \<Rightarrow> string" where
  "ambiguous_msg index p_name p_type possible_matches =
     proc_prefix index p_name @ '': Type '' @ [CHR 0x27] @ p_type @ [CHR 0x27]
       @ '' is ambiguous. Matches: '' @ repr_list possible_matches"

definition not_exist_msg :: "nat \<Rightarrow> string \<Rightarrow> string \<Rightarrow> string" where
  "not_exist_msg index p_name p_type =
     proc_prefix index p_name @ '': Type '' @ [CHR 0x27] @ p_type @ [CHR 0x27]
       @ '' does not exist in your NiFi instance.''"

definition possible_matches :: "string list \<Rightarrow> string \<Rightarrow> string list" where
  "possible_matches catalog p_type =
     filter (\<lambda>fqcn. endswith fqcn (''.'' @ p_type) \<or> fqcn = p_type) catalog"

text \<open>
  One iteration of the loop over the processors (lines 169--198).  \<open>catalog\<close> is the key
  list of \<^verbatim>\<open>available_processor_types\<close>.  The result is the processor as it is left,
  the errors appended and whether \<^verbatim>\<open>changes_made\<close> was set.
\<close>

definition resolve_type :: "string list \<Rightarrow> nat \<Rightarrow> processor \<Rightarrow> processor \<times> string list \<times> bool" where
  "resolve_type catalog index p =
     (let p_type = proc_type p; p_name = proc_name p in
      if p_type = [] then (p, [], False)
      else if p_type \<in> set catalog then (p, [], False)
      else
        (let ms = possible_matches catalog p_type in
         if length ms = 1 then
           (let matched_fqcn = hd ms in
            if matched_fqcn \<noteq> [] then
              (if proc_type p \<noteq> matched_fqcn
               then (p\<lparr>proc_type := matched_fqcn\<rparr>, [], True)
               else (p, [], False))
            else (p, [not_exist_msg index p_name p_type], False))
         else if length ms > 1 then (p, [ambiguous_msg index p_name p_type ms], False)
         else (p, [not_exist_msg index p_name p_type], False)))"

fun resolve_types_from :: "string list \<Rightarrow> nat \<Rightarrow> processor list \<Rightarrow> processor list \<times> string list \<times> bool" where
  "resolve_types_from catalog index [] = ([], [], False)"
| "resolve_types_from catalog index (p # ps) =
     (case resolve_type catalog index p of (p', es, ch) \<Rightarrow>
        (case resolve_types_from catalog (Suc index) ps of (ps', es', ch') \<Rightarrow>
           (p' # ps', es @ es', ch \<or> ch')))"

section \<open>Python operations on JSON values\<close>

fun truthy :: "json \<Rightarrow> bool" where
  "truthy JNull = False"
| "truthy (JBool b) = b"
| "truthy (JInt i) = (i \<noteq> 0)"
| "truthy (JFloat r) = (r \<noteq> ''0.0'' \<and> r \<noteq> ''-0.0'')"
| "truthy (JStr s) = (s \<noteq> [])"
| "truthy (JList xs) = (xs \<noteq> [])"
| "truthy (JObj kvs) = (kvs \<noteq> [])"

fun is_substring :: "string \<Rightarrow> string \<Rightarrow> bool" where
  "is_substring sub [] = (sub = [])"
| "is_substring sub (c # cs) = (startswith (c # cs) sub \<or> is_substring sub cs)"

text \<open>\<^verbatim>\<open>k in x\<close> for a string \<open>k\<close>: key of a dict, element of a list, substring of a string;
  on anything else Python raises \<^verbatim>\<open>TypeError\<close>.\<close>

fun py_in :: "string \<Rightarrow> json \<Rightarrow> exn + bool" where
  "py_in k (JObj kvs) = Inr (k \<in> fst ` set kvs)"
| "py_in k (JList xs) = Inr (JStr k \<in> set xs)"
| "py_in k (JStr s) = Inr (is_substring k s)"
| "py_in k _ = Inl TypeError"

text \<open>\<^verbatim>\<open>x[k]\<close> for a string \<open>k\<close>: only a dict can be subscripted by a string.\<close>

fun py_getitem :: "json \<Rightarrow> string \<Rightarrow> exn + json" where
  "py_getitem (JObj kvs) k = (case map_of kvs k of Some v \<Rightarrow> Inr v | None \<Rightarrow> Inl (KeyError k))"
| "py_getitem _ k = Inl TypeError"

definition ebind :: "exn + 'a \<Rightarrow> ('a \<Rightarrow> exn + 'b) \<Rightarrow> exn + 'b" where
  "ebind m f = (case m of Inl e \<Rightarrow> Inl e | Inr v \<Rightarrow> f v)"

datatype pytype = PyStr | PyDict | PyList

fun isinstance :: "json \<Rightarrow> pytype \<Rightarrow> bool" where
  "isinstance (JStr s) PyStr = True"
| "isinstance (JObj kvs) PyDict = True"
| "isinstance (JList xs) PyList = True"
| "isinstance _ _ = False"

fun type_name :: "json \<Rightarrow> string" where
  "type_name JNull = ''NoneType''"
| "type_name (JBool b) = ''bool''"
| "type_name (JInt i) = ''int''"
| "type_name (JFloat r) = ''float''"
| "type_name (JStr s) = ''str''"
| "type_name (JList xs) = ''list''"
| "type_name (JObj kvs) = ''dict''"

section \<open>Structural checker: \<^verbatim>\<open>validate_structure\<close>\<close>

definition required_processor_fields :: "(string \<times> pytype \<times> string) list" where
  "required_processor_fields =
     [(''id'', PyStr, ''string''),
      (''name'', PyStr, ''string''),
      (''properties'', PyDict, ''object''),
      (''scheduling'', PyDict, ''object''),
      (''auto_terminated_relationships'', PyList, ''array''),
      (''type'', PyStr, ''string'')]"

definition required_connection_fields :: "(string \<times> pytype \<times> string) list" where
  "required_connection_fields =
     [(''from_id'', PyStr, ''string''),
      (''to_id'', PyStr, ''string''),
      (''relationships'', PyList, ''array'')]"

definition missing_msg :: "string \<Rightarrow> string \<Rightarrow> string" where
  "missing_msg prefix field = prefix @ '': Missing required field '' @ [CHR 0x60] @ field @ [CHR 0x60]"

definition wrong_type_msg :: "string \<Rightarrow> string \<Rightarrow> string \<Rightarrow> json \<Rightarrow> string" where
  "wrong_type_msg prefix field tname v =
     prefix @ '': Field '' @ [CHR 0x60] @ field @ [CHR 0x60] @ '' must be a '' @ tname
       @ '', got '' @ type_name v"

text \<open>The inner loop over the required fields of one entry (lines 95--99 and 115--119).\<close>

fun check_fields :: "string \<Rightarrow> (string \<times> pytype \<times> string) list \<Rightarrow> json \<Rightarrow> exn + string list" where
  "check_fields prefix [] entry = Inr []"
| "check_fields prefix ((field, expected_type, tname) # rest) entry =
     ebind (py_in field entry) (\<lambda>present.
       if \<not> present then
         ebind (check_fields prefix rest entry) (\<lambda>es. Inr (missing_msg prefix field # es))
       else
         ebind (py_getitem entry field) (\<lambda>v.
           if \<not> isinstance v expected_type then
             ebind (check_fields prefix rest entry)
               (\<lambda>es. Inr (wrong_type_msg prefix field tname v # es))
           else check_fields prefix rest entry))"

text \<open>The loop \<^verbatim>\<open>for index, entry in enumerate(...)\<close> over processors or connections.\<close>

fun check_entries :: "string \<Rightarrow> (string \<times> pytype \<times> string) list \<Rightarrow> nat \<Rightarrow> json list \<Rightarrow> exn + string list" where
  "check_entries kind reqs index [] = Inr []"
| "check_entries kind reqs index (entry # entries) =
     ebind (check_fields (kind @ ''['' @ show_nat index @ '']'') reqs entry) (\<lambda>es.
       ebind (check_entries kind reqs (Suc index) entries) (\<lambda>es'. Inr (es @ es')))"

definition check_summary :: "json \<Rightarrow> exn + string list" where
  "check_summary data =
     ebind (py_in ''plan_summary'' data) (\<lambda>present.
       if \<not> present then Inr [''Missing required field: '' @ [CHR 0x60] @ ''plan_summary'' @ [CHR 0x60]]
       else ebind (py_getitem data ''plan_summary'') (\<lambda>v.
         if \<not> isinstance v PyStr then
           Inr [''Field '' @ [CHR 0x60] @ ''plan_summary'' @ [CHR 0x60] @ '' must be a string (markdown)'']
         else Inr []))"

definition check_processors :: "(string \<times> json) list \<Rightarrow> exn + string list" where
  "check_processors details =
     (let e1 = (case map_of details ''processors'' of
                  None \<Rightarrow> [''Missing required field in plan_details: '' @ [CHR 0x60] @ ''processors'' @ [CHR 0x60]]
                | Some v \<Rightarrow>
                    if \<not> isinstance v PyList then
                      [''Field '' @ [CHR 0x60] @ ''plan_details.processors'' @ [CHR 0x60] @ '' must be an array (list)'']
                    else [])
      in case map_of details ''processors'' of
           Some (JList ps) \<Rightarrow>
             ebind (check_entries ''Processor'' required_processor_fields 0 ps) (\<lambda>es. Inr (e1 @ es))
         | _ \<Rightarrow> Inr e1)"

definition check_connections :: "(string \<times> json) list \<Rightarrow> exn + string list" where
  "check_connections details =
     (case map_of details ''connections'' of
        None \<Rightarrow> Inr [''Missing required field in plan_details: '' @ [CHR 0x60] @ ''connections'' @ [CHR 0x60]]
      | Some (JList cs) \<Rightarrow> check_entries ''Connection'' required_connection_fields 0 cs
      | Some _ \<Rightarrow> Inr [''Field '' @ [CHR 0x60] @ ''plan_details.connections'' @ [CHR 0x60] @ '' must be an array (list)''])"

text \<open>
  The whole checker.  The result is the list of errors appended to \<^verbatim>\<open>self.errors\<close>,
  or the exception that leaves the method.
\<close>

definition validate_structure :: "json \<Rightarrow> exn + string list" where
  "validate_structure data =
     (if \<not> truthy data then Inr []
      else
        ebind (check_summary data) (\<lambda>e1.
        ebind (py_in ''plan_details'' data) (\<lambda>present.
          if \<not> present then
            Inr (e1 @ [''Missing required field: '' @ [CHR 0x60] @ ''plan_details'' @ [CHR 0x60]])
          else
            ebind (py_getitem data ''plan_details'') (\<lambda>details.
              case details of
                JObj kvs \<Rightarrow>
                  ebind (check_processors kvs) (\<lambda>e2.
                  ebind (check_connections kvs) (\<lambda>e3. Inr (e1 @ e2 @ e3)))
              | _ \<Rightarrow>
                  Inr (e1 @ [''Field '' @ [CHR 0x60] @ ''plan_details'' @ [CHR 0x60]
                             @ '' must be an object (dict)''])))))"

section \<open>The runtime and the repair oracle, as the validator sees them\<close>

text \<open>
  What the validator reads of a property descriptor: whether the key
  \<^verbatim>\<open>identifiesControllerService\<close> is present, and the values of \<^verbatim>\<open>allowableValues\<close>
  (\<open>None\<close> when the key is absent or null).
\<close>

record descriptor =
  identifies_cs :: bool
  allowable_values :: "string list option"

text \<open>
  The body of a 201 answer to the creation request.  \<open>pd_descriptors\<close> is \<open>None\<close> when
  \<^verbatim>\<open>component.config\<close> or its \<^verbatim>\<open>descriptors\<close> are absent.  The keys read with a default
  (\<^verbatim>\<open>supportsDynamicProperties\<close>, \<^verbatim>\<open>validationErrors\<close>, \<^verbatim>\<open>relationships\<close>,
  \<^verbatim>\<open>clientId\<close>) hold that default when absent.
\<close>

record proc_data =
  pd_id :: string
  pd_version :: int
  pd_client_id :: "string option"
  pd_descriptors :: "(string \<times> descriptor) list option"
  pd_supports_dynamic :: bool
  pd_validation_errors :: "string list"
  pd_relationships :: "string list"

text \<open>
  The three ways \<^verbatim>\<open>requests.post\<close> can end: it raises, the runtime answers with a status
  other than 201 (\<open>Rejected status text\<close>), or it answers 201 with the created processor.
\<close>

datatype create_response =
    RequestException string
  | Rejected nat string
  | Created proc_data

text \<open>
  The environment of one run.  Every external call takes the answer numbered by the count
  of external calls made so far, so the answers may depend on everything sent before.
  \<open>delete_ok\<close> tells whether the runtime honours a deletion request, \<open>llm\<close> is the text the
  oracle returns (\<open>None\<close> when the call raises), \<open>loads\<close> is \<^verbatim>\<open>json.loads\<close>
  (\<open>None\<close> when it raises).
\<close>

record env =
  post :: "nat \<Rightarrow> create_response"
  delete_ok :: "nat \<Rightarrow> bool"
  llm :: "nat \<Rightarrow> string option"
  loads :: "string \<Rightarrow> json option"

record config =
  sandbox_pg_id :: string
  gemini_api_key :: bool
  max_retries :: int

record payload =
  pl_type :: string
  pl_name :: string
  pl_x :: nat
  pl_properties :: "(string \<times> json) list"
  pl_strategy :: "json option"
  pl_period :: "json option"
  pl_tasks :: "json option"

text \<open>What the validator sends out, in order.\<close>

datatype event =
    Post payload
  | Delete string int "string option"
  | AskConfig processor "string list"
  | AskScheduling json string

text \<open>
  The state of \<^verbatim>\<open>validate_processor_configuration\<close>: the processors of the plan, the
  error list, the dirty flag, the number of external calls made, the instances alive in
  the sandbox group of the runtime, the requests sent, and \<open>inspected\<close>.

  \<open>inspected\<close> stands for three locals of the method that outlive a loop iteration:
  \<^verbatim>\<open>current_props_dict\<close> and \<^verbatim>\<open>valid_descriptors\<close> (bound at lines 312--314) and
  \<^verbatim>\<open>filtered_errors\<close> (bound at line 323).  An attempt that binds the first two either
  raises at line 318 or goes on to line 323, so after the first attempt that reaches
  line 323 all three are bound, and before it none is.
\<close>

record vstate =
  procs :: "processor list"
  errors :: "string list"
  changes_made :: bool
  tick :: nat
  sandbox :: "string list"
  sent :: "event list"
  inspected :: bool

subsection \<open>Repair oracle client\<close>

definition whitespace :: "char \<Rightarrow> bool" where
  "whitespace c = (c \<in> set [CHR 0x09, CHR 0x0A, CHR 0x0B, CHR 0x0C, CHR 0x0D, CHR 0x1C,
                              CHR 0x1D, CHR 0x1E, CHR 0x1F, CHR 0x20, CHR 0x85, CHR 0xA0])"

definition strip :: "string \<Rightarrow> string" where
  "strip s = rev (dropWhile whitespace (rev (dropWhile whitespace s)))"

text \<open>Lines 480--484 and 549--553: the text handed to \<^verbatim>\<open>json.loads\<close>.\<close>

definition unfence :: "string \<Rightarrow> string" where
  "unfence raw =
     (let text = strip raw;
          text = (if startswith text ''```json'' then drop 7 text else text);
          text = (if endswith text ''```'' then take (length text - 3) text else text)
      in text)"

definition get_truthy :: "(string \<times> json) list \<Rightarrow> string \<Rightarrow> bool" where
  "get_truthy kvs k = (case map_of kvs k of None \<Rightarrow> False | Some v \<Rightarrow> truthy v)"

text \<open>
  Lines 478--504 of \<^verbatim>\<open>resolve_validation_errors_with_llm\<close>: the fix parsed from the
  oracle's text, \<open>None\<close> standing for the \<^verbatim>\<open>False\<close> the method returns.
\<close>

definition parse_config_fix :: "(string \<Rightarrow> json option) \<Rightarrow> string \<Rightarrow> (string \<times> json) list option" where
  "parse_config_fix json_loads raw =
     (case json_loads (unfence raw) of
        None \<Rightarrow> None
      | Some (JObj fixes) \<Rightarrow>
          if \<not> get_truthy fixes ''properties'' \<and> \<not> get_truthy fixes ''auto_terminated_relationships''
          then None else Some fixes
      | Some _ \<Rightarrow> None)"

text \<open>
  Lines 549--557 of \<^verbatim>\<open>resolve_scheduling_errors_with_llm\<close>:
  \<^verbatim>\<open>fixes.get("scheduling", fixes)\<close>; \<^verbatim>\<open>.get\<close> on anything but a dict raises and the
  handler returns \<^verbatim>\<open>False\<close>.
\<close>

definition parse_scheduling_fix :: "(string \<Rightarrow> json option) \<Rightarrow> string \<Rightarrow> json option" where
  "parse_scheduling_fix json_loads raw =
     (case json_loads (unfence raw) of
        None \<Rightarrow> None
      | Some (JObj fixes) \<Rightarrow>
          (case map_of fixes ''scheduling'' of Some v \<Rightarrow> Some v | None \<Rightarrow> Some (JObj fixes))
      | Some _ \<Rightarrow> None)"

text \<open>
  The two calls.  Each returns the fix and the state after the call; without an API key
  no call is made.  (The error context of lines 414--438 only shapes the prompt.)
\<close>

definition resolve_validation_errors_with_llm ::
    "config \<Rightarrow> env \<Rightarrow> processor \<Rightarrow> string list \<Rightarrow> vstate \<Rightarrow> (string \<times> json) list option \<times> vstate" where
  "resolve_validation_errors_with_llm cfg ev processor_config validation_errors s =
     (if \<not> gemini_api_key cfg then (None, s)
      else
        (let s' = s\<lparr>tick := Suc (tick s), sent := sent s @ [AskConfig processor_config validation_errors]\<rparr>
         in case llm ev (tick s) of
              None \<Rightarrow> (None, s')
            | Some raw \<Rightarrow> (parse_config_fix (loads ev) raw, s')))"

definition resolve_scheduling_errors_with_llm ::
    "config \<Rightarrow> env \<Rightarrow> json \<Rightarrow> string \<Rightarrow> vstate \<Rightarrow> json option \<times> vstate" where
  "resolve_scheduling_errors_with_llm cfg ev scheduling_config error_message s =
     (if \<not> gemini_api_key cfg then (None, s)
      else
        (let s' = s\<lparr>tick := Suc (tick s), sent := sent s @ [AskScheduling scheduling_config error_message]\<rparr>
         in case llm ev (tick s) of
              None \<Rightarrow> (None, s')
            | Some raw \<Rightarrow> (parse_scheduling_fix (loads ev) raw, s')))"

subsection \<open>Sandbox validator: \<^verbatim>\<open>validate_processor_configuration\<close>\<close>

text \<open>\<^verbatim>\<open>d[k] = v\<close> on a dict: an existing key keeps its place, a new one goes last.\<close>

fun dict_set :: "(string \<times> json) list \<Rightarrow> string \<Rightarrow> json \<Rightarrow> (string \<times> json) list" where
  "dict_set [] k v = [(k, v)]"
| "dict_set ((k', v') # kvs) k v =
     (if k' = k then (k, v) # kvs else (k', v') # dict_set kvs k v)"

text \<open>Lines 295--298: the single allowable value of a controller-service property.\<close>

definition single_choice :: "descriptor \<Rightarrow> string option" where
  "single_choice d =
     (if identifies_cs d then
        (case allowable_values d of Some [single_value] \<Rightarrow> Some single_value | _ \<Rightarrow> None)
      else None)"

text \<open>
  Lines 294--307, the loop over the descriptors: the properties of the processor as they
  are left, and whether \<^verbatim>\<open>changes_made\<close> was set.
\<close>

fun auto_correct :: "(string \<times> descriptor) list \<Rightarrow> (string \<times> json) list \<Rightarrow> bool \<Rightarrow> (string \<times> json) list \<times> bool" where
  "auto_correct [] props ch = (props, ch)"
| "auto_correct ((prop_name, d) # ds) props ch =
     (case single_choice d of
        None \<Rightarrow> auto_correct ds props ch
      | Some single_value \<Rightarrow>
          if map_of props prop_name \<noteq> Some (JStr single_value)
          then auto_correct ds (dict_set props prop_name (JStr single_value)) True
          else auto_correct ds props ch)"

text \<open>
  Lines 309--318.  The \<^verbatim>\<open>for\<close> loop stands outside the \<^verbatim>\<open>if\<close> that binds
  \<^verbatim>\<open>current_props_dict\<close> and \<^verbatim>\<open>valid_descriptors\<close>, and it appends to
  \<^verbatim>\<open>filtered_errors\<close>, which line 323 binds only afterwards.  On the first attempt that
  gets here the locals are unbound and Python raises \<^verbatim>\<open>UnboundLocalError\<close>: on the loop
  header when the \<^verbatim>\<open>if\<close> was not taken, on the append when a key of the plan is not a
  descriptor.  Once the locals are bound the loop appends to the list of an earlier
  attempt, which line 323 then replaces: nothing is raised and nothing is kept.
\<close>

definition dynamic_check :: "bool \<Rightarrow> proc_data \<Rightarrow> string list \<Rightarrow> exn option" where
  "dynamic_check bound pd prop_keys =
     (if bound then None
      else
        (case (if \<not> pd_supports_dynamic pd then pd_descriptors pd else None) of
           None \<Rightarrow> Some (UnboundLocalError ''current_props_dict'')
         | Some ds \<Rightarrow>
             if \<exists>prop_key \<in> set prop_keys. prop_key \<notin> fst ` set ds
             then Some (UnboundLocalError ''filtered_errors'')
             else None))"

text \<open>Lines 323--327.\<close>

definition filter_errors :: "string list \<Rightarrow> string list" where
  "filter_errors validation_errors =
     filter (\<lambda>error. \<not> (startswith error (CHR 0x27 # ''Relationship'')
                        \<or> startswith error (CHR 0x27 # ''Upstream Connections'')))
       validation_errors"

text \<open>
  The strings among the elements put into a set; a list or a dict among them is
  unhashable.  Elements that are not strings never equal a relationship name and are
  left out.
\<close>

fun hashable_strs :: "json list \<Rightarrow> exn + string list" where
  "hashable_strs [] = Inr []"
| "hashable_strs (JList xs # rest) = Inl TypeError"
| "hashable_strs (JObj kvs # rest) = Inl TypeError"
| "hashable_strs (JStr s # rest) = ebind (hashable_strs rest) (\<lambda>r. Inr (s # r))"
| "hashable_strs (_ # rest) = hashable_strs rest"

text \<open>\<^verbatim>\<open>set(x)\<close>: the elements of a list, the keys of a dict, the characters of a string.\<close>

fun py_set :: "json \<Rightarrow> exn + string list" where
  "py_set (JList xs) = hashable_strs xs"
| "py_set (JObj kvs) = Inr (map fst kvs)"
| "py_set (JStr s) = Inr (map (\<lambda>c. [c]) s)"
| "py_set _ = Inl TypeError"

text \<open>Lines 216--224: \<^verbatim>\<open>connections_map\<close>, from a source id to the relationships leaving it.\<close>

fun build_connections_map ::
    "connection list \<Rightarrow> (string \<rightharpoonup> string list) \<Rightarrow> exn + (string \<rightharpoonup> string list)" where
  "build_connections_map [] m = Inr m"
| "build_connections_map (conn # conns) m =
     (let src = from_id conn in
      if src \<noteq> [] then
        ebind (hashable_strs (relationships conn)) (\<lambda>rels.
          build_connections_map conns
            (m(src \<mapsto> (case m src of None \<Rightarrow> [] | Some old \<Rightarrow> old) @ rels)))
      else build_connections_map conns m)"

text \<open>Line 340.  The set is listed in the order of the runtime's relationship list.\<close>

definition unaccounted_rels :: "string list \<Rightarrow> string list \<Rightarrow> string list \<Rightarrow> string list" where
  "unaccounted_rels available_rels auto_terminated connected =
     filter (\<lambda>r. r \<notin> set auto_terminated \<union> set connected) (remdups available_rels)"

text \<open>Lines 336--342.\<close>

definition relationship_errors ::
    "(string \<rightharpoonup> string list) \<Rightarrow> string \<Rightarrow> string list \<Rightarrow> string list \<Rightarrow> string list" where
  "relationship_errors connections_map p_id auto_terminated available_rels =
     (case connections_map p_id of
        None \<Rightarrow> []
      | Some connected \<Rightarrow>
          (let unaccounted = unaccounted_rels available_rels auto_terminated connected in
           if unaccounted \<noteq> [] then
             [''Relationships '' @ repr_set unaccounted @ '' are not auto-terminated or connected.'']
           else []))"

definition lower :: "string \<Rightarrow> string" where
  "lower s = map (\<lambda>c. if (65::nat) \<le> of_char c \<and> of_char c \<le> (90::nat)
                       then char_of (of_char c + (32::nat)) else c) s"

text \<open>Lines 354--362: the deletion request; its failure is swallowed.\<close>

definition delete_instance :: "env \<Rightarrow> proc_data \<Rightarrow> vstate \<Rightarrow> vstate" where
  "delete_instance ev pd s =
     s\<lparr>tick := Suc (tick s),
       sent := sent s @ [Delete (pd_id pd) (pd_version pd)
                           (case pd_client_id pd of
                              None \<Rightarrow> None
                            | Some c \<Rightarrow> if c \<noteq> [] then Some c else None)],
       sandbox := (if delete_ok ev (tick s) then remove1 (pd_id pd) (sandbox s) else sandbox s)\<rparr>"

datatype outcome = Break | Continue | Raise exn

text \<open>Lines 386--394: the oracle's fix written into the plan.\<close>

definition apply_fixes :: "nat \<Rightarrow> (string \<times> json) list \<Rightarrow> vstate \<Rightarrow> vstate" where
  "apply_fixes index fixes s =
     (let s1 = (case map_of fixes ''properties'' of
                  None \<Rightarrow> s
                | Some v \<Rightarrow> s\<lparr>procs := (procs s)[index := (procs s ! index)\<lparr>properties := v\<rparr>],
                               changes_made := True\<rparr>)
      in case map_of fixes ''auto_terminated_relationships'' of
           None \<Rightarrow> s1
         | Some v \<Rightarrow>
             s1\<lparr>procs := (procs s1)[index := (procs s1 ! index)\<lparr>auto_terminated_relationships := v\<rparr>],
                changes_made := True\<rparr>)"

text \<open>
  Lines 287--401: what one attempt does once the runtime has created the instance \<open>pd\<close>.
  \<open>p_properties\<close> is the dict read at line 243; the plan holds the same object, so the
  corrections of lines 303--306 are written back into the plan.
\<close>

definition inspect_created ::
    "config \<Rightarrow> env \<Rightarrow> (string \<rightharpoonup> string list) \<Rightarrow> nat \<Rightarrow> string \<Rightarrow> string \<Rightarrow> nat
       \<Rightarrow> (string \<times> json) list \<Rightarrow> proc_data \<Rightarrow> vstate \<Rightarrow> vstate \<times> outcome" where
  "inspect_created cfg ev connections_map index p_name p_id retry_count p_properties pd s =
     (let current_processor_data = procs s ! index;
          (props, ch) = (case pd_descriptors pd of
                           None \<Rightarrow> (p_properties, False)
                         | Some descriptors \<Rightarrow> auto_correct descriptors p_properties False);
          s1 = s\<lparr>procs := (procs s)[index := current_processor_data\<lparr>properties := JObj props\<rparr>],
                 changes_made := (changes_made s \<or> ch)\<rparr>
      in case dynamic_check (inspected s1) pd (map fst props) of
           Some e \<Rightarrow> (s1, Raise e)
         | None \<Rightarrow>
             (let s2 = s1\<lparr>inspected := True\<rparr>;
                  filtered_errors = filter_errors (pd_validation_errors pd)
              in case py_set (auto_terminated_relationships current_processor_data) of
                   Inl e \<Rightarrow> (s2, Raise e)
                 | Inr auto_terminated \<Rightarrow>
                     (let rel_errors = relationship_errors connections_map p_id auto_terminated
                                         (pd_relationships pd);
                          all_errors_found =
                            map (\<lambda>err. proc_prefix index p_name @ '' Config Error: '' @ err) filtered_errors
                            @ map (\<lambda>err. proc_prefix index p_name @ '' Relationship Error: '' @ err) rel_errors;
                          s3 = delete_instance ev pd s2
                      in if all_errors_found = [] then (s3, Break)
                         else if int retry_count < max_retries cfg \<and> gemini_api_key cfg
                                 \<and> (filtered_errors \<noteq> [] \<or> rel_errors \<noteq> []) then
                           (case pd_descriptors pd of
                              None \<Rightarrow> (s3, Raise (KeyError ''descriptors''))
                            | Some descriptors \<Rightarrow>
                                (case resolve_validation_errors_with_llm cfg ev (procs s3 ! index)
                                        (filtered_errors @ rel_errors) s3 of
                                   (Some fixes, s4) \<Rightarrow> (apply_fixes index fixes s4, Continue)
                                 | (None, s4) \<Rightarrow>
                                     (s4\<lparr>errors := errors s4 @ all_errors_found\<rparr>, Break)))
                         else (s3\<lparr>errors := errors s3 @ all_errors_found\<rparr>, Break))))"

definition failed_create_msg :: "nat \<Rightarrow> string \<Rightarrow> nat \<Rightarrow> string \<Rightarrow> string" where
  "failed_create_msg index p_name status error_text =
     proc_prefix index p_name @ '': Failed to create in sandbox. Status: '' @ show_nat status
       @ '', Response: '' @ error_text"

text \<open>Lines 241--405: one iteration of the \<^verbatim>\<open>while\<close> loop.\<close>

definition attempt ::
    "config \<Rightarrow> env \<Rightarrow> (string \<rightharpoonup> string list) \<Rightarrow> nat \<Rightarrow> string \<Rightarrow> string \<Rightarrow> string \<Rightarrow> nat
       \<Rightarrow> vstate \<Rightarrow> vstate \<times> outcome" where
  "attempt cfg ev connections_map index p_name p_type p_id retry_count s =
     (let current_processor_data = procs s ! index in
      case properties current_processor_data of
        JObj p_properties \<Rightarrow>
          (case scheduling current_processor_data of
             JObj sched \<Rightarrow>
               (let pl = \<lparr>pl_type = p_type, pl_name = ''VALIDATION-'' @ p_name, pl_x = index * 500,
                          pl_properties = filter (\<lambda>(k, v). isinstance v PyStr) p_properties,
                          pl_strategy = map_of sched ''strategy'',
                          pl_period = map_of sched ''period'',
                          pl_tasks = map_of sched ''concurrent_tasks''\<rparr>;
                    s1 = s\<lparr>tick := Suc (tick s), sent := sent s @ [Post pl]\<rparr>
                in case post ev (tick s) of
                     RequestException e \<Rightarrow>
                       (s1\<lparr>errors := errors s1 @ [proc_prefix index p_name
                              @ '': NiFi API error during sandbox validation: '' @ e]\<rparr>, Break)
                   | Rejected status error_text \<Rightarrow>
                       (let failed = failed_create_msg index p_name status error_text in
                        if status = 400 \<and> is_substring ''scheduling period'' (lower error_text)
                           \<and> int retry_count < max_retries cfg \<and> gemini_api_key cfg then
                          (case resolve_scheduling_errors_with_llm cfg ev
                                  (scheduling current_processor_data) error_text s1 of
                             (Some fixes, s2) \<Rightarrow>
                               if truthy fixes then
                                 (s2\<lparr>procs := (procs s2)[index := (procs s2 ! index)\<lparr>scheduling := fixes\<rparr>],
                                     changes_made := True\<rparr>, Continue)
                               else (s2\<lparr>errors := errors s2 @ [failed]\<rparr>, Break)
                           | (None, s2) \<Rightarrow> (s2\<lparr>errors := errors s2 @ [failed]\<rparr>, Break))
                        else (s1\<lparr>errors := errors s1 @ [failed]\<rparr>, Break))
                   | Created pd \<Rightarrow>
                       inspect_created cfg ev connections_map index p_name p_id retry_count
                         p_properties pd (s1\<lparr>sandbox := pd_id pd # sandbox s1\<rparr>))
           | _ \<Rightarrow> (s, Raise AttributeError))
      | _ \<Rightarrow> (s, Raise AttributeError))"

definition max_attempts :: "config \<Rightarrow> int" where
  "max_attempts cfg = (if gemini_api_key cfg then max_retries cfg + 1 else 1)"

text \<open>
  Lines 235--405: the \<^verbatim>\<open>while retry_count < max_attempts\<close> loop for one processor.  The
  result is the state and the exception that left the method, if any.
\<close>

function attempts ::
    "config \<Rightarrow> env \<Rightarrow> (string \<rightharpoonup> string list) \<Rightarrow> nat \<Rightarrow> string \<Rightarrow> string \<Rightarrow> string \<Rightarrow> nat
       \<Rightarrow> vstate \<Rightarrow> vstate \<times> exn option" where
  "attempts cfg ev connections_map index p_name p_type p_id retry_count s =
     (if int retry_count < max_attempts cfg then
        (case attempt cfg ev connections_map index p_name p_type p_id retry_count s of
           (s', Break) \<Rightarrow> (s', None)
         | (s', Continue) \<Rightarrow>
             attempts cfg ev connections_map index p_name p_type p_id (Suc retry_count) s'
         | (s', Raise e) \<Rightarrow> (s', Some e))
      else (s, None))"
  by pat_completeness auto
termination
  by (relation "measure (\<lambda>(cfg, ev, connections_map, index, p_name, p_type, p_id, retry_count, s).
                   nat (max_attempts cfg - int retry_count))") auto

declare attempts.simps [simp del]

text \<open>Lines 230--405: the loop over the processors; an exception ends it.\<close>

fun validate_from ::
    "config \<Rightarrow> env \<Rightarrow> (string \<rightharpoonup> string list) \<Rightarrow> nat \<Rightarrow> processor list \<Rightarrow> vstate
       \<Rightarrow> vstate \<times> exn option" where
  "validate_from cfg ev connections_map index [] s = (s, None)"
| "validate_from cfg ev connections_map index (processor # rest) s =
     (case attempts cfg ev connections_map index (proc_name processor) (proc_type processor)
             (proc_id processor) 0 s of
        (s', None) \<Rightarrow> validate_from cfg ev connections_map (Suc index) rest s'
      | (s', Some e) \<Rightarrow> (s', Some e))"

text \<open>
  The method.  Its locals are fresh at each call.  The processors iterated are those of
  the plan; their names, types and ids are not written during the loop.
\<close>

definition validate_processor_configuration ::
    "config \<Rightarrow> env \<Rightarrow> connection list \<Rightarrow> vstate \<Rightarrow> vstate \<times> exn option" where
  "validate_processor_configuration cfg ev connections s =
     (if sandbox_pg_id cfg = [] then
        (s\<lparr>errors := errors s @ [''SANDBOX_VALIDATION_PROCESSOR_GROUP not set in .env'']\<rparr>, None)
      else
        (case build_connections_map connections Map.empty of
           Inl e \<Rightarrow> (s, Some e)
         | Inr connections_map \<Rightarrow>
             validate_from cfg ev connections_map 0 (procs s) (s\<lparr>inspected := False\<rparr>)))"

section \<open>The whole run: \<^verbatim>\<open>run\<close>\<close>

subsection \<open>More Python operations on JSON values\<close>

text \<open>\<^verbatim>\<open>for x in v\<close>: the elements of a list, the keys of a dict, the characters of a
  string.\<close>

fun py_iter :: "json \<Rightarrow> exn + json list" where
  "py_iter (JList xs) = Inr xs"
| "py_iter (JObj kvs) = Inr (map (\<lambda>kv. JStr (fst kv)) kvs)"
| "py_iter (JStr s) = Inr (map (\<lambda>c. JStr [c]) s)"
| "py_iter _ = Inl TypeError"

text \<open>\<^verbatim>\<open>v.get(k, d)\<close> and \<^verbatim>\<open>v[k] = x\<close> for a string \<open>k\<close>.\<close>

fun py_get :: "json \<Rightarrow> string \<Rightarrow> json \<Rightarrow> exn + json" where
  "py_get (JObj kvs) k d = Inr (case map_of kvs k of Some v \<Rightarrow> v | None \<Rightarrow> d)"
| "py_get _ k d = Inl AttributeError"

fun py_setitem :: "json \<Rightarrow> string \<Rightarrow> json \<Rightarrow> exn + json" where
  "py_setitem (JObj kvs) k x = Inr (JObj (dict_set kvs k x))"
| "py_setitem _ k x = Inl TypeError"

fun hashable :: "json \<Rightarrow> bool" where
  "hashable (JList xs) = False"
| "hashable (JObj kvs) = False"
| "hashable _ = True"

definition show_int :: "int \<Rightarrow> string" where
  "show_int i = (if i < 0 then ''-'' @ show_nat (nat (- i)) else show_nat (nat i))"

text \<open>\<^verbatim>\<open>repr(v)\<close>, and \<^verbatim>\<open>str(v)\<close> as an f-string prints a value.\<close>

fun py_repr :: "json \<Rightarrow> string" where
  "py_repr JNull = ''None''"
| "py_repr (JBool b) = (if b then ''True'' else ''False'')"
| "py_repr (JInt i) = show_int i"
| "py_repr (JFloat r) = r"
| "py_repr (JStr s) = repr_str s"
| "py_repr (JList xs) = ''['' @ join '', '' (map py_repr xs) @ '']''"
| "py_repr (JObj kvs) =
     ''{'' @ join '', '' (map (\<lambda>kv. repr_str (fst kv) @ '': '' @ py_repr (snd kv)) kvs) @ ''}''"

definition py_format :: "json \<Rightarrow> string" where
  "py_format v = (case v of JStr s \<Rightarrow> s | _ \<Rightarrow> py_repr v)"

subsection \<open>The static validators on the document\<close>

text \<open>
  Lines 169--198 for one entry of \<^verbatim>\<open>processors\<close>, on the document as loaded: the entry as
  it is left, the errors appended and whether \<^verbatim>\<open>changes_made\<close> was set.
\<close>

definition resolve_type_raw :: "string list \<Rightarrow> nat \<Rightarrow> json \<Rightarrow> exn + (json \<times> string list \<times> bool)" where
  "resolve_type_raw catalog index processor =
     ebind (py_get processor ''type'' JNull) (\<lambda>p_type.
     ebind (py_get processor ''name'' (JStr (''Processor-'' @ show_nat index))) (\<lambda>p_name.
       if \<not> truthy p_type then Inr (processor, [], False)
       else if \<not> hashable p_type then Inl TypeError
       else if p_type \<in> set (map JStr catalog) then Inr (processor, [], False)
       else
         (let ms = filter (\<lambda>fqcn. endswith fqcn (''.'' @ py_format p_type) \<or> JStr fqcn = p_type)
                     catalog
          in
          if length ms = 1 then
            (let matched_fqcn = hd ms in
             if matched_fqcn \<noteq> [] then
               (if p_type \<noteq> JStr matched_fqcn
                then ebind (py_setitem processor ''type'' (JStr matched_fqcn))
                       (\<lambda>processor'. Inr (processor', [], True))
                else Inr (processor, [], False))
             else Inr (processor,
                       [not_exist_msg index (py_format p_name) (py_format p_type)], False))
          else if length ms > 1 then
            Inr (processor, [ambiguous_msg index (py_format p_name) (py_format p_type) ms], False)
          else Inr (processor, [not_exist_msg index (py_format p_name) (py_format p_type)], False))))"

fun resolve_types_raw :: "string list \<Rightarrow> nat \<Rightarrow> json list \<Rightarrow> exn + (json list \<times> string list \<times> bool)" where
  "resolve_types_raw catalog index [] = Inr ([], [], False)"
| "resolve_types_raw catalog index (processor # rest) =
     ebind (resolve_type_raw catalog index processor) (\<lambda>(processor', es, ch).
       ebind (resolve_types_raw catalog (Suc index) rest) (\<lambda>(rest', es', ch').
         Inr (processor' # rest', es @ es', ch \<or> ch')))"

text \<open>Lines 646--652 for one entry of \<^verbatim>\<open>processors\<close>.\<close>

definition controller_service_errors :: "nat \<Rightarrow> json \<Rightarrow> exn + string list" where
  "controller_service_errors index processor =
     ebind (py_get processor ''name'' (JStr (''Processor-'' @ show_nat index))) (\<lambda>p_name.
     ebind (py_get processor ''properties'' (JObj [])) (\<lambda>props.
       case props of
         JObj kvs \<Rightarrow>
           Inr (map (\<lambda>kv. proc_prefix index (py_format p_name) @ '': Property '' @ [CHR 0x27]
                           @ fst kv @ [CHR 0x27]
                           @ '' requires a new Controller Service (value is ''
                           @ [CHR 0x27] @ ''CREATE_NEW_CS'' @ [CHR 0x27]
                           @ ''). Please create it manually in NiFi and update the plan.json with the actual UUID.'')
                  (filter (\<lambda>kv. snd kv = JStr ''CREATE_NEW_CS'') kvs))
       | _ \<Rightarrow> Inl AttributeError))"

fun controller_services_from :: "nat \<Rightarrow> json list \<Rightarrow> exn + string list" where
  "controller_services_from index [] = Inr []"
| "controller_services_from index (processor # rest) =
     ebind (controller_service_errors index processor) (\<lambda>es.
       ebind (controller_services_from (Suc index) rest) (\<lambda>es'. Inr (es @ es')))"

text \<open>The guard of lines 158, 207 and 642, and the list it guards.\<close>

definition has_processors :: "json \<Rightarrow> exn + bool" where
  "has_processors data =
     (if \<not> truthy data then Inr False
      else ebind (py_in ''plan_details'' data) (\<lambda>present.
             if \<not> present then Inr False
             else ebind (py_getitem data ''plan_details'') (\<lambda>details.
                    py_in ''processors'' details)))"

definition get_processors :: "json \<Rightarrow> exn + json" where
  "get_processors data =
     ebind (py_getitem data ''plan_details'') (\<lambda>details. py_getitem details ''processors'')"

text \<open>The entries of the list \<^verbatim>\<open>processors\<close> are dicts of the document, written in
  place: the document with its list of processors replaced.\<close>

definition set_processors :: "json \<Rightarrow> json list \<Rightarrow> json" where
  "set_processors data items =
     (case data of
        JObj root \<Rightarrow>
          (case map_of root ''plan_details'' of
             Some (JObj details) \<Rightarrow>
               (case map_of details ''processors'' of
                  Some (JList old) \<Rightarrow>
                    JObj (dict_set root ''plan_details''
                            (JObj (dict_set details ''processors'' (JList items))))
                | _ \<Rightarrow> data)
           | _ \<Rightarrow> data)
      | _ \<Rightarrow> data)"

subsection \<open>State and environment of a run\<close>

text \<open>
  The plan file (\<open>Inl\<close> the message when it cannot be loaded), the document in memory,
  the error list, the dirty flag, the cached type catalog, the count of external calls
  and the instances in the sandbox.
\<close>

record rstate =
  disk :: "string + json"
  r_data :: json
  r_errors :: "string list"
  r_changes_made :: bool
  available_processor_types :: "string list"
  r_tick :: nat
  r_sandbox :: "string list"

text \<open>
  Besides the runtime's sandbox and the oracle: the answer to the request for the
  processor types (\<open>Inl\<close> the error recorded when the base URL is not set, the request
  fails or the answer has no type list) and the error of a write to the plan file, if any.
\<close>

record world =
  w_env :: env
  types :: "nat \<Rightarrow> string + string list"
  write_error :: "nat \<Rightarrow> string option"

datatype choice = Retry | FixWithLLM | Exit

text \<open>
  How a run ends: the plan cannot be loaded, the user exits, an exception leaves
  \<^verbatim>\<open>run\<close>, the run reaches line 714, or the listed choices of the user are used up at a
  prompt.  \<open>OutsideModel\<close> is returned when the static pass found nothing and the document
  still has not the shape the structural checker demands.
\<close>

datatype ending = LoadFailed | UserExit | Raised exn | Done | Prompting | OutsideModel

text \<open>Lines 121--147.  The keys of the dict in insertion order.\<close>

definition fetch_nifi_processor_types :: "world \<Rightarrow> rstate \<Rightarrow> bool \<times> rstate" where
  "fetch_nifi_processor_types w st =
     (case types w (r_tick st) of
        Inl msg \<Rightarrow> (False, st\<lparr>r_errors := r_errors st @ [msg], r_tick := Suc (r_tick st)\<rparr>)
      | Inr catalog \<Rightarrow>
          (True, st\<lparr>available_processor_types :=
                      rev (remdups (rev (available_processor_types st @ catalog))),
                    r_tick := Suc (r_tick st)\<rparr>))"

text \<open>Lines 149--155.\<close>

definition save_plan :: "world \<Rightarrow> rstate \<Rightarrow> rstate" where
  "save_plan w st =
     (case write_error w (r_tick st) of
        None \<Rightarrow> st\<lparr>disk := Inr (r_data st), r_tick := Suc (r_tick st)\<rparr>
      | Some e \<Rightarrow> st\<lparr>r_errors := r_errors st @ [''Failed to save updated plan: '' @ e],
                     r_tick := Suc (r_tick st)\<rparr>)"

text \<open>Lines 157--200.\<close>

definition validate_processor_types :: "world \<Rightarrow> rstate \<Rightarrow> exn + rstate" where
  "validate_processor_types w st =
     ebind (has_processors (r_data st)) (\<lambda>has.
       if \<not> has then Inr st
       else
         (let (success, st1) = (if available_processor_types st = []
                                then fetch_nifi_processor_types w st else (True, st))
          in if \<not> success then Inr st1
             else
               ebind (get_processors (r_data st1)) (\<lambda>processors.
               ebind (py_iter processors) (\<lambda>items.
               ebind (resolve_types_raw (available_processor_types st1) 0 items) (\<lambda>(items', es, ch).
                 Inr (st1\<lparr>r_data := set_processors (r_data st1) items',
                          r_errors := r_errors st1 @ es,
                          r_changes_made := ch\<rparr>))))))"

text \<open>Lines 641--652.\<close>

definition validate_controller_services :: "rstate \<Rightarrow> exn + rstate" where
  "validate_controller_services st =
     ebind (has_processors (r_data st)) (\<lambda>has.
       if \<not> has then Inr st
       else
         ebind (get_processors (r_data st)) (\<lambda>processors.
         ebind (py_iter processors) (\<lambda>items.
         ebind (controller_services_from 0 items) (\<lambda>es.
           Inr (st\<lparr>r_errors := r_errors st @ es\<rparr>)))))"

text \<open>Lines 664--672: the three initial validations in turn.\<close>

definition static_pass :: "world \<Rightarrow> rstate \<Rightarrow> exn + rstate" where
  "static_pass w st =
     ebind (validate_structure (r_data st)) (\<lambda>es.
       ebind (validate_processor_types w (st\<lparr>r_errors := r_errors st @ es\<rparr>))
         validate_controller_services)"

text \<open>
  Lines 563--639.  Whatever is raised inside the \<^verbatim>\<open>try\<close> makes the method return
  \<^verbatim>\<open>False\<close>; \<^verbatim>\<open>self.data.get\<close> of line 593 stands before it.
\<close>

definition resolve_structure_errors_with_llm :: "config \<Rightarrow> world \<Rightarrow> rstate \<Rightarrow> exn + (bool \<times> rstate)" where
  "resolve_structure_errors_with_llm cfg w st =
     (if \<not> gemini_api_key cfg then Inr (False, st)
      else
        (let st1 = (if available_processor_types st = []
                    then snd (fetch_nifi_processor_types w st) else st)
         in ebind (py_get (r_data st1) ''plan_details'' (JObj [])) (\<lambda>shown.
              (let st2 = st1\<lparr>r_tick := Suc (r_tick st1)\<rparr> in
               case llm (w_env w) (r_tick st1) of
                 None \<Rightarrow> Inr (False, st2)
               | Some raw \<Rightarrow>
                   (case loads (w_env w) (unfence raw) of
                      None \<Rightarrow> Inr (False, st2)
                    | Some fixed \<Rightarrow>
                        (case ebind (py_in ''plan_details'' fixed) (\<lambda>present.
                                 if present then py_getitem fixed ''plan_details'' else Inr fixed) of
                           Inl e \<Rightarrow> Inr (False, st2)
                         | Inr fixed_details \<Rightarrow>
                             (case py_setitem (r_data st2) ''plan_details'' fixed_details of
                                Inl e \<Rightarrow> Inr (False, st2)
                              | Inr d \<Rightarrow> Inr (True, st2\<lparr>r_data := d, r_changes_made := True\<rparr>))))))))"

text \<open>The entries of \<open>plan_details\<close> under a key, and the string members of a field
  among a list of entries: the ids of the processors, the endpoints of the connections.\<close>

definition plan_entries :: "json \<Rightarrow> string \<Rightarrow> json list" where
  "plan_entries data k =
     (case py_getitem data ''plan_details'' of
        Inr (JObj details) \<Rightarrow> (case map_of details k of Some (JList xs) \<Rightarrow> xs | _ \<Rightarrow> [])
      | _ \<Rightarrow> [])"

definition member_strs :: "string \<Rightarrow> json list \<Rightarrow> string list" where
  "member_strs k entries =
     concat (map (\<lambda>entry. case entry of
                             JObj kvs \<Rightarrow> (case map_of kvs k of Some (JStr s) \<Rightarrow> [s] | _ \<Rightarrow> [])
                           | _ \<Rightarrow> []) entries)"

subsection \<open>The sandbox pass on the document\<close>

text \<open>
  The sandbox validator reads the processors and connections of a document that passed
  the structural check, and writes \<^verbatim>\<open>properties\<close>, \<^verbatim>\<open>scheduling\<close> and
  \<^verbatim>\<open>auto_terminated_relationships\<close> of a processor.
\<close>

definition as_processor :: "json \<Rightarrow> processor option" where
  "as_processor entry =
     (case entry of
        JObj kvs \<Rightarrow>
          (case (map_of kvs ''id'', map_of kvs ''name'', map_of kvs ''type'') of
             (Some (JStr i), Some (JStr n), Some (JStr t)) \<Rightarrow>
               (case (map_of kvs ''properties'', map_of kvs ''scheduling'',
                      map_of kvs ''auto_terminated_relationships'') of
                  (Some p, Some s, Some a) \<Rightarrow>
                    Some \<lparr>proc_id = i, proc_name = n, proc_type = t, properties = p,
                          scheduling = s, auto_terminated_relationships = a\<rparr>
                | _ \<Rightarrow> None)
           | _ \<Rightarrow> None)
      | _ \<Rightarrow> None)"

definition as_connection :: "json \<Rightarrow> connection option" where
  "as_connection entry =
     (case entry of
        JObj kvs \<Rightarrow>
          (case (map_of kvs ''from_id'', map_of kvs ''to_id'', map_of kvs ''relationships'') of
             (Some (JStr f), Some (JStr t), Some (JList r)) \<Rightarrow>
               Some \<lparr>from_id = f, to_id = t, relationships = r\<rparr>
           | _ \<Rightarrow> None)
      | _ \<Rightarrow> None)"

definition as_plan :: "json \<Rightarrow> (processor list \<times> connection list) option" where
  "as_plan doc =
     (case (those (map as_processor (plan_entries doc ''processors'')),
            those (map as_connection (plan_entries doc ''connections''))) of
        (Some ps, Some cs) \<Rightarrow>
          if length ps = length (plan_entries doc ''processors'') then Some (ps, cs) else None
      | _ \<Rightarrow> None)"

definition put_processor :: "processor \<Rightarrow> json \<Rightarrow> json" where
  "put_processor p entry =
     (case entry of
        JObj kvs \<Rightarrow>
          JObj (dict_set (dict_set (dict_set kvs ''properties'' (properties p))
                            ''scheduling'' (scheduling p))
                  ''auto_terminated_relationships'' (auto_terminated_relationships p))
      | _ \<Rightarrow> entry)"

definition put_processors :: "processor list \<Rightarrow> json \<Rightarrow> json" where
  "put_processors ps doc =
     set_processors doc (map (\<lambda>pe. put_processor (fst pe) (snd pe))
                           (zip ps (plan_entries doc ''processors'')))"

text \<open>Lines 701--714: the sandbox pass, the save when the plan is dirty, the end.\<close>

definition finish :: "config \<Rightarrow> world \<Rightarrow> rstate \<Rightarrow> ending \<times> rstate" where
  "finish cfg w st =
     (if \<not> truthy (r_data st) then
        (let st1 = (if sandbox_pg_id cfg = []
                    then st\<lparr>r_errors := r_errors st
                                @ [''SANDBOX_VALIDATION_PROCESSOR_GROUP not set in .env'']\<rparr>
                    else st)
         in (Done, if r_changes_made st1 then save_plan w st1 else st1))
      else
        (case as_plan (r_data st) of
           None \<Rightarrow> (OutsideModel, st)
         | Some (ps, conns) \<Rightarrow>
             (case validate_processor_configuration cfg (w_env w) conns
                     \<lparr>procs = ps, errors = r_errors st, changes_made = r_changes_made st,
                      tick = r_tick st, sandbox = r_sandbox st, sent = [], inspected = False\<rparr> of
                (s', r) \<Rightarrow>
                  (let st1 = st\<lparr>r_data := put_processors (procs s') (r_data st),
                                r_errors := errors s', r_changes_made := changes_made s',
                                r_tick := tick s', r_sandbox := sandbox s'\<rparr>
                   in case r of
                        Some e \<Rightarrow> (Raised e, st1)
                      | None \<Rightarrow> (Done, if r_changes_made st1 then save_plan w st1 else st1)))))"

text \<open>
  Lines 654--699: the loop of \<^verbatim>\<open>run\<close>.  Each pass empties the error list, loads the plan
  file and clears the dirty flag; the user's answers at the prompt are taken from the
  list \<open>choices\<close>.
\<close>

fun run :: "config \<Rightarrow> world \<Rightarrow> choice list \<Rightarrow> rstate \<Rightarrow> ending \<times> rstate" where
  "run cfg w choices st =
     (case disk st of
        Inl msg \<Rightarrow> (LoadFailed, st\<lparr>r_errors := [msg]\<rparr>)
      | Inr doc \<Rightarrow>
          (let st0 = st\<lparr>r_data := doc, r_errors := [], r_changes_made := False\<rparr> in
           case static_pass w st0 of
             Inl e \<Rightarrow> (Raised e, st0)
           | Inr st1 \<Rightarrow>
               if r_errors st1 = [] then finish cfg w st1
               else
                 (case choices of
                    [] \<Rightarrow> (Prompting, st1)
                  | Retry # later \<Rightarrow> run cfg w later st1
                  | Exit # later \<Rightarrow> (UserExit, st1)
                  | FixWithLLM # later \<Rightarrow>
                      (case resolve_structure_errors_with_llm cfg w st1 of
                         Inl e \<Rightarrow> (Raised e, st1)
                       | Inr (True, st2) \<Rightarrow> run cfg w later (save_plan w st2)
                       | Inr (False, st2) \<Rightarrow> run cfg w later st2))))"

declare run.simps [simp del]

section \<open>Notions used to state the properties\<close>

text \<open>The relationship names carried by the connections that leave processor \<open>p\<close>.\<close>

definition str_elems :: "json list \<Rightarrow> string list" where
  "str_elems xs = concat (map (\<lambda>x. case x of JStr s \<Rightarrow> [s] | _ \<Rightarrow> []) xs)"

definition outgoing :: "connection list \<Rightarrow> string \<Rightarrow> string set" where
  "outgoing conns p =
     set (concat (map (\<lambda>c. str_elems (relationships c)) (filter (\<lambda>c. from_id c = p) conns)))"

text \<open>The number of creation requests and of oracle calls among the requests sent.\<close>

fun is_post :: "event \<Rightarrow> bool" where
  "is_post (Post pl) = True"
| "is_post _ = False"

fun is_ask :: "event \<Rightarrow> bool" where
  "is_ask (AskConfig p es) = True"
| "is_ask (AskScheduling sc e) = True"
| "is_ask _ = False"

definition posts :: "vstate \<Rightarrow> nat" where
  "posts s = length (filter is_post (sent s))"

definition asks :: "vstate \<Rightarrow> nat" where
  "asks s = length (filter is_ask (sent s))"

text \<open>Environments for concrete runs: the same answer to every call, or a list of
  answers taken by the number of the call, with a default once the list is used up.\<close>

definition always :: "'a \<Rightarrow> nat \<Rightarrow> 'a" where
  "always x n = x"

definition scripted :: "'a list \<Rightarrow> 'a \<Rightarrow> nat \<Rightarrow> 'a" where
  "scripted xs d n = (if n < length xs then xs ! n else d)"

definition never_parses :: "string \<Rightarrow> json option" where
  "never_parses raw = None"

definition initial_state :: "processor list \<Rightarrow> vstate" where
  "initial_state ps =
     \<lparr>procs = ps, errors = [], changes_made = False, tick = 0, sandbox = [], sent = [],
      inspected = False\<rparr>"

text \<open>A concrete run: one processor with relationships \<open>success\<close> and \<open>failure\<close>, the
  second auto-terminated; no API key, a runtime that creates and deletes as asked.\<close>

definition scenario_processor :: processor where
  "scenario_processor =
     \<lparr>proc_id = ''p1'', proc_name = ''Route'',
      proc_type = ''org.apache.nifi.processors.standard.RouteOnAttribute'',
      properties = JObj [], scheduling = JObj [],
      auto_terminated_relationships = JList [JStr ''failure'']\<rparr>"

definition scenario_instance :: proc_data where
  "scenario_instance =
     \<lparr>pd_id = ''instance-1'', pd_version = 1, pd_client_id = None, pd_descriptors = Some [],
      pd_supports_dynamic = False, pd_validation_errors = [],
      pd_relationships = [''success'', ''failure'']\<rparr>"

definition scenario_connection :: connection where
  "scenario_connection = \<lparr>from_id = ''p1'', to_id = ''p2'', relationships = [JStr ''success'']\<rparr>"

definition no_oracle :: config where
  "no_oracle = \<lparr>sandbox_pg_id = ''sandbox'', gemini_api_key = False, max_retries = 3\<rparr>"

definition with_oracle :: config where
  "with_oracle = \<lparr>sandbox_pg_id = ''sandbox'', gemini_api_key = True, max_retries = 3\<rparr>"

definition scenario_env :: env where
  "scenario_env =
     \<lparr>post = always (Created scenario_instance), delete_ok = always True, llm = always None,
      loads = never_parses\<rparr>"

text \<open>The JSON object the oracle returned on call \<open>n\<close>, when its text parsed to one.\<close>

definition oracle_object :: "env \<Rightarrow> nat \<Rightarrow> (string \<times> json) list option" where
  "oracle_object ev n =
     (case llm ev n of
        None \<Rightarrow> None
      | Some raw \<Rightarrow>
          (case loads ev (unfence raw) of Some (JObj fixes) \<Rightarrow> Some fixes | _ \<Rightarrow> None))"

text \<open>An oracle answer to a scheduling repair, and what \<^verbatim>\<open>json.loads\<close> makes of it.\<close>

definition scheduling_answer :: string where
  \<open>scheduling_answer = ''{"strategy": "TIMER_DRIVEN", "period": "1 min"}''\<close>

definition scheduling_object :: "(string \<times> json) list" where
  "scheduling_object = [(''strategy'', JStr ''TIMER_DRIVEN''), (''period'', JStr ''1 min'')]"

definition scheduling_env :: env where
  "scheduling_env =
     \<lparr>post = always (Rejected 400 ''Invalid Scheduling Period: 1 minute''), delete_ok = always True,
      llm = always (Some scheduling_answer),
      loads = map_of [(scheduling_answer, JObj scheduling_object)]\<rparr>"

text \<open>The value of a property in the plan.\<close>

definition property_value :: "processor \<Rightarrow> string \<Rightarrow> json option" where
  "property_value p prop_name =
     (case properties p of JObj kvs \<Rightarrow> map_of kvs prop_name | _ \<Rightarrow> None)"

text \<open>Two descriptors with a single allowable value: the first does not identify a
  controller service, the second does.\<close>

definition compression_descriptor :: descriptor where
  "compression_descriptor = \<lparr>identifies_cs = False, allowable_values = Some [''none'']\<rparr>"

definition reader_descriptor :: descriptor where
  "reader_descriptor = \<lparr>identifies_cs = True, allowable_values = Some [''reader-service-1'']\<rparr>"

definition described_env :: "string \<Rightarrow> descriptor \<Rightarrow> env" where
  "described_env prop_name d =
     scenario_env\<lparr>post := always (Created (scenario_instance\<lparr>pd_descriptors := Some [(prop_name, d)]\<rparr>))\<rparr>"

text \<open>A runtime that creates every instance and always reports a configuration error,
  with an oracle that always answers with the same fix.\<close>

definition config_answer :: string where
  \<open>config_answer = ''{"auto_terminated_relationships": ["failure"]}''\<close>

definition config_object :: "(string \<times> json) list" where
  "config_object = [(''auto_terminated_relationships'', JList [JStr ''failure''])]"

definition failing_env :: env where
  "failing_env =
     \<lparr>post = always (Created (scenario_instance
                \<lparr>pd_validation_errors := [''Directory is invalid because it is required'']\<rparr>)),
      delete_ok = always True,
      llm = always (Some config_answer),
      loads = map_of [(config_answer, JObj config_object)]\<rparr>"

text \<open>A plan document with one processor and one connection whose target names no
  processor of the plan.\<close>

definition dangling_plan :: json where
  "dangling_plan =
     JObj [(''plan_summary'', JStr ''Read files and log them''),
           (''plan_details'',
            JObj [(''processors'',
                   JList [JObj [(''id'', JStr ''p1''), (''name'', JStr ''Read''),
                                (''properties'', JObj []), (''scheduling'', JObj []),
                                (''auto_terminated_relationships'', JList []),
                                (''type'', JStr ''GetFile'')]]),
                  (''connections'',
                   JList [JObj [(''from_id'', JStr ''p1''), (''to_id'', JStr ''ghost''),
                                (''relationships'', JList [JStr ''success''])]])])]"

text \<open>A plan document whose only connection lacks \<open>to_id\<close> and has a null
  \<open>relationships\<close>.\<close>

definition incomplete_plan :: json where
  "incomplete_plan =
     JObj [(''plan_summary'', JStr ''Read files''),
           (''plan_details'',
            JObj [(''processors'', JList []),
                  (''connections'',
                   JList [JObj [(''from_id'', JStr ''p1''), (''relationships'', JNull)]])])]"

text \<open>A plan whose first processor has a short type name that the catalog resolves and
  whose second has a type the catalog does not know; a run that starts with it on disk.\<close>

definition rewrite_plan :: json where
  "rewrite_plan =
     JObj [(''plan_summary'', JStr ''Read files and parse them''),
           (''plan_details'',
            JObj [(''processors'',
                   JList [JObj [(''id'', JStr ''p1''), (''name'', JStr ''Read''),
                                (''properties'', JObj []), (''scheduling'', JObj []),
                                (''auto_terminated_relationships'', JList []),
                                (''type'', JStr ''GetFile'')],
                          JObj [(''id'', JStr ''p2''), (''name'', JStr ''Parse''),
                                (''properties'', JObj []), (''scheduling'', JObj []),
                                (''auto_terminated_relationships'', JList []),
                                (''type'', JStr ''NoSuchProcessor'')]]),
                  (''connections'', JList [])])]"

definition scenario_world :: world where
  "scenario_world =
     \<lparr>w_env = scenario_env,
      types = always (Inr [''org.apache.nifi.processors.standard.GetFile'']),
      write_error = always None\<rparr>"

definition start_with :: "json \<Rightarrow> rstate" where
  "start_with doc =
     \<lparr>disk = Inr doc, r_data = JNull, r_errors = [], r_changes_made = False,
      available_processor_types = [], r_tick = 0, r_sandbox = []\<rparr>"

text \<open>An oracle that answers a structural repair with an empty flow.\<close>

definition structure_answer :: string where
  \<open>structure_answer = ''{"processors": [], "connections": []}''\<close>

definition structure_world :: world where
  "structure_world =
     scenario_world\<lparr>w_env := scenario_env
        \<lparr>llm := always (Some structure_answer),
         loads := map_of [(structure_answer,
                           JObj [(''processors'', JList []), (''connections'', JList [])])]\<rparr>\<rparr>"

text \<open>
  The properties of the processor as lines 291--307 leave them in the plan once the
  instance \<open>pd\<close> has been created: the automatic correction against its descriptors,
  or the properties as they were when the answer has no descriptors.
\<close>

definition auto_corrected :: "proc_data \<Rightarrow> (string \<times> json) list \<Rightarrow> (string \<times> json) list" where
  "auto_corrected pd p_properties =
     (case pd_descriptors pd of
        None \<Rightarrow> p_properties
      | Some descriptors \<Rightarrow> fst (auto_correct descriptors p_properties False))"

text \<open>
  What the answer of the oracle to call \<open>n\<close> amounts to for either repair: the fix that
  the client returns and the validator applies, \<open>None\<close> when the call raises, the answer
  is turned down by the client, or (line 277) the scheduling fix is not truthy.
\<close>

definition config_fix :: "env \<Rightarrow> nat \<Rightarrow> (string \<times> json) list option" where
  "config_fix ev n =
     (case llm ev n of None \<Rightarrow> None | Some raw \<Rightarrow> parse_config_fix (loads ev) raw)"

definition scheduling_fix :: "env \<Rightarrow> nat \<Rightarrow> json option" where
  "scheduling_fix ev n =
     (case llm ev n of
        None \<Rightarrow> None
      | Some raw \<Rightarrow>
          (case parse_scheduling_fix (loads ev) raw of
             None \<Rightarrow> None
           | Some v \<Rightarrow> if truthy v then Some v else None))"

text \<open>
  The number of times the loop for one processor comes to lines 279--283 or 386--397,
  where a fix of the oracle is written into the plan, \<^verbatim>\<open>retry_count\<close> is incremented
  and the loop continues: the increase of \<^verbatim>\<open>retry_count\<close> over the loop.
\<close>

function fixes_applied ::
    "config \<Rightarrow> env \<Rightarrow> (string \<rightharpoonup> string list) \<Rightarrow> nat \<Rightarrow> string \<Rightarrow> string \<Rightarrow> string \<Rightarrow> nat
       \<Rightarrow> vstate \<Rightarrow> nat" where
  "fixes_applied cfg ev connections_map index p_name p_type p_id retry_count s =
     (if int retry_count < max_attempts cfg then
        (case attempt cfg ev connections_map index p_name p_type p_id retry_count s of
           (s', Continue) \<Rightarrow>
             Suc (fixes_applied cfg ev connections_map index p_name p_type p_id (Suc retry_count) s')
         | (s', Break) \<Rightarrow> 0
         | (s', Raise e) \<Rightarrow> 0)
      else 0)"
  by pat_completeness auto
termination
  by (relation "measure (\<lambda>(cfg, ev, connections_map, index, p_name, p_type, p_id, retry_count, s).
                   nat (max_attempts cfg - int retry_count))") auto

declare fixes_applied.simps [simp del]

text \<open>An oracle answer that has none of the keys of either repair.\<close>

definition stray_answer :: string where
  \<open>stray_answer = ''{"foo": "bar"}''\<close>

definition stray_object :: "(string \<times> json) list" where
  "stray_object = [(''foo'', JStr ''bar'')]"

definition stray_env :: env where
  "stray_env =
     \<lparr>post = always (Rejected 400 ''Invalid Scheduling Period: 1 minute''), delete_ok = always True,
      llm = always (Some stray_answer),
      loads = map_of [(stray_answer, JObj stray_object)]\<rparr>"

text \<open>The run on \<open>incomplete_plan\<close> after its first static pass, and after the oracle's
  structural fix has been put in place of the plan's details.\<close>

definition checked_state :: rstate where
  "checked_state =
     (start_with incomplete_plan)
       \<lparr>r_data := incomplete_plan,
        r_errors := [missing_msg ''Connection[0]'' ''to_id'',
                     wrong_type_msg ''Connection[0]'' ''relationships'' ''array'' JNull],
        available_processor_types := [''org.apache.nifi.processors.standard.GetFile''],
        r_tick := 1\<rparr>"

definition repaired_state :: rstate where
  "repaired_state =
     checked_state
       \<lparr>r_data := JObj [(''plan_summary'', JStr ''Read files''),
                        (''plan_details'', JObj [(''processors'', JList []), (''connections'', JList [])])],
        r_changes_made := True,
        r_tick := 2\<rparr>"

section \<open>Properties of the type resolver\<close>

lemma possible_matches_suffix:
  "p_type \<notin> set catalog \<Longrightarrow>
     possible_matches catalog p_type = filter (\<lambda>fqcn. endswith fqcn (''.'' @ p_type)) catalog"
  unfolding possible_matches_def by (rule filter_cong) auto

lemma possible_matches_single:
  assumes "p_type \<notin> set catalog" and "possible_matches catalog p_type = [c]"
  shows "c \<noteq> [] \<and> c \<noteq> p_type"
proof -
  from assms(2) have "c \<in> set (possible_matches catalog p_type)" by simp
  then have "c \<in> set catalog" and "endswith c (''.'' @ p_type) \<or> c = p_type"
    unfolding possible_matches_def by auto
  with assms(1) show ?thesis by (auto simp: endswith_def)
qed

text \<open>
  C4, as amended.  For a processor whose type string is not empty: a type found in the
  catalog leaves the processor as it is, with no error and the plan not marked dirty;
  otherwise the candidates are the catalog identifiers that end with a dot followed by
  the type string; with no candidate the processor is left as it is and the single error
  says that the type does not exist; with exactly one candidate the type field is
  rewritten to it and the plan is marked dirty; with more than one the processor is left
  as it is and the single error is the ambiguity message listing all candidates.
\<close>

theorem resolve_type_cases:
  assumes "proc_type p \<noteq> []"
  shows "(proc_type p \<in> set catalog \<longrightarrow> resolve_type catalog index p = (p, [], False))
    \<and> (proc_type p \<notin> set catalog \<longrightarrow>
         possible_matches catalog (proc_type p)
           = filter (\<lambda>fqcn. endswith fqcn (''.'' @ proc_type p)) catalog
         \<and> (possible_matches catalog (proc_type p) = [] \<longrightarrow>
              resolve_type catalog index p
                = (p, [not_exist_msg index (proc_name p) (proc_type p)], False))
         \<and> (\<forall>c. possible_matches catalog (proc_type p) = [c] \<longrightarrow>
              resolve_type catalog index p = (p\<lparr>proc_type := c\<rparr>, [], True))
         \<and> (1 < length (possible_matches catalog (proc_type p)) \<longrightarrow>
              resolve_type catalog index p
                = (p, [ambiguous_msg index (proc_name p) (proc_type p)
                         (possible_matches catalog (proc_type p))], False)))"
  using assms possible_matches_suffix [of "proc_type p" catalog]
    possible_matches_single [of "proc_type p" catalog]
  by (auto simp: resolve_type_def Let_def)

theorem resolve_type_cases_witness:
  "(let catalog = [''org.a.JsonReader'', ''org.b.JsonReader'', ''org.c.RunMongoAggregation''];
        mk = (\<lambda>t. \<lparr>proc_id = ''p1'', proc_name = ''n'', proc_type = t, properties = JObj [],
                    scheduling = JObj [], auto_terminated_relationships = JList []\<rparr>)
    in resolve_type catalog 0 (mk ''org.a.JsonReader'') = (mk ''org.a.JsonReader'', [], False)
     \<and> resolve_type catalog 0 (mk ''RunMongoAggregation'')
         = (mk ''org.c.RunMongoAggregation'', [], True)
     \<and> resolve_type catalog 0 (mk ''JsonReader'')
         = (mk ''JsonReader'',
            [ambiguous_msg 0 ''n'' ''JsonReader'' [''org.a.JsonReader'', ''org.b.JsonReader'']], False)
     \<and> resolve_type catalog 0 (mk ''GetFile'')
         = (mk ''GetFile'', [not_exist_msg 0 ''n'' ''GetFile''], False))"
proof -
  let ?catalog = "[''org.a.JsonReader'', ''org.b.JsonReader'', ''org.c.RunMongoAggregation'']"
  let ?mk = "\<lambda>t. \<lparr>proc_id = ''p1'', proc_name = ''n'', proc_type = t, properties = JObj [],
                    scheduling = JObj [], auto_terminated_relationships = JList []\<rparr>"
  have a: "resolve_type ?catalog 0 (?mk ''org.a.JsonReader'') = (?mk ''org.a.JsonReader'', [], False)"
    using resolve_type_cases [of "?mk ''org.a.JsonReader''" ?catalog 0] by simp
  have b: "resolve_type ?catalog 0 (?mk ''RunMongoAggregation'')
         = (?mk ''org.c.RunMongoAggregation'', [], True)"
    using resolve_type_cases [of "?mk ''RunMongoAggregation''" ?catalog 0]
    by (simp add: possible_matches_def endswith_def)
  have c: "resolve_type ?catalog 0 (?mk ''JsonReader'')
         = (?mk ''JsonReader'',
            [ambiguous_msg 0 ''n'' ''JsonReader'' [''org.a.JsonReader'', ''org.b.JsonReader'']], False)"
    using resolve_type_cases [of "?mk ''JsonReader''" ?catalog 0]
    by (simp add: possible_matches_def endswith_def)
  have d: "resolve_type ?catalog 0 (?mk ''GetFile'')
         = (?mk ''GetFile'', [not_exist_msg 0 ''n'' ''GetFile''], False)"
    using resolve_type_cases [of "?mk ''GetFile''" ?catalog 0]
    by (simp add: possible_matches_def endswith_def)
  show ?thesis using a b c d by (simp add: Let_def)
qed

text \<open>
  The claim as first stated fails at the empty type string: the catalog has no exact match
  and no candidate, and yet no error is reported (line 173 skips the processor).
\<close>

theorem resolve_type_empty_counterexample:
  "[] \<notin> set [''org.apache.nifi.processors.standard.GetFile'']
   \<and> filter (\<lambda>fqcn. endswith fqcn (''.'' @ []))
        [''org.apache.nifi.processors.standard.GetFile''] = []
   \<and> resolve_type [''org.apache.nifi.processors.standard.GetFile''] 0
        \<lparr>proc_id = ''p1'', proc_name = ''Get'', proc_type = [], properties = JObj [],
         scheduling = JObj [], auto_terminated_relationships = JList []\<rparr>
      = (\<lparr>proc_id = ''p1'', proc_name = ''Get'', proc_type = [], properties = JObj [],
          scheduling = JObj [], auto_terminated_relationships = JList []\<rparr>, [], False)"
  by (simp add: resolve_type_def endswith_def)

section \<open>Properties of the relationship check\<close>

lemma hashable_strs_set: "hashable_strs xs = Inr rs \<Longrightarrow> set rs = set (str_elems xs)"
proof (induction xs arbitrary: rs rule: hashable_strs.induct)
  case (4 s rest)
  then show ?case by (auto simp: ebind_def str_elems_def split: sum.splits)
qed (auto simp: str_elems_def)

lemma build_connections_map_dom:
  "build_connections_map conns m = Inr cm \<Longrightarrow>
     (cm k = None) = (m k = None \<and> \<not> (k \<noteq> [] \<and> k \<in> from_id ` set conns))"
proof (induction conns arbitrary: m)
  case Nil
  then show ?case by simp
next
  case (Cons c conns)
  show ?case
  proof (cases "from_id c = []")
    case True
    with Cons.prems have "build_connections_map conns m = Inr cm" by simp
    from Cons.IH [OF this] True show ?thesis by auto
  next
    case False
    with Cons.prems obtain rels where r: "hashable_strs (relationships c) = Inr rels"
      and b: "build_connections_map conns
                (m(from_id c \<mapsto> (case m (from_id c) of None \<Rightarrow> [] | Some old \<Rightarrow> old) @ rels)) = Inr cm"
      by (auto simp: ebind_def Let_def split: sum.splits)
    from Cons.IH [OF b] False show ?thesis by auto
  qed
qed

lemma build_connections_map_val:
  "build_connections_map conns m = Inr cm \<Longrightarrow> cm k = Some v \<Longrightarrow> k \<noteq> [] \<Longrightarrow>
     set v = (case m k of None \<Rightarrow> {} | Some old \<Rightarrow> set old) \<union> outgoing conns k"
proof (induction conns arbitrary: m)
  case Nil
  then show ?case by (simp add: outgoing_def)
next
  case (Cons c conns)
  show ?case
  proof (cases "from_id c = []")
    case True
    with Cons.prems have b: "build_connections_map conns m = Inr cm" by simp
    from Cons.IH [OF b Cons.prems(2,3)] True Cons.prems(3) show ?thesis
      by (auto simp: outgoing_def)
  next
    case False
    with Cons.prems obtain rels where r: "hashable_strs (relationships c) = Inr rels"
      and b: "build_connections_map conns
                (m(from_id c \<mapsto> (case m (from_id c) of None \<Rightarrow> [] | Some old \<Rightarrow> old) @ rels)) = Inr cm"
      by (auto simp: ebind_def Let_def split: sum.splits)
    from Cons.IH [OF b Cons.prems(2,3)] hashable_strs_set [OF r] False show ?thesis
      by (auto simp: outgoing_def split: option.splits)
  qed
qed

lemma unaccounted_rels_set:
  "set (unaccounted_rels avail atr connected) = set avail - (set atr \<union> set connected)"
  by (auto simp: unaccounted_rels_def)

lemma unaccounted_rels_distinct: "distinct (unaccounted_rels avail atr connected)"
  by (simp add: unaccounted_rels_def)

text \<open>
  C6, as amended.  Let the connection map be built from the plan's connections.  For a
  processor with a non-empty id that is the source of at least one connection, a
  relationship error is computed if and only if the relationships the runtime reports,
  minus the auto-terminated ones and those carried by its outgoing connections, are not
  all accounted for, and the message then lists exactly the unaccounted names.  A
  processor that is the source of no connection, or whose id is empty, gets no
  relationship error.
\<close>

theorem relationship_errors_iff_unaccounted:
  assumes "build_connections_map conns Map.empty = Inr cm"
  shows "(p_id \<noteq> [] \<and> p_id \<in> from_id ` set conns \<longrightarrow>
            (relationship_errors cm p_id atr avail \<noteq> []
               \<longleftrightarrow> set avail - (set atr \<union> outgoing conns p_id) \<noteq> {})
          \<and> (set avail - (set atr \<union> outgoing conns p_id) \<noteq> {} \<longrightarrow>
               (\<exists>us. set us = set avail - (set atr \<union> outgoing conns p_id) \<and> distinct us
                  \<and> relationship_errors cm p_id atr avail
                      = [''Relationships '' @ repr_set us @ '' are not auto-terminated or connected.''])))
       \<and> (p_id \<notin> from_id ` set conns \<longrightarrow> relationship_errors cm p_id atr avail = [])
       \<and> (p_id = [] \<longrightarrow> relationship_errors cm p_id atr avail = [])"
proof (intro conjI impI)
  assume "p_id \<notin> from_id ` set conns"
  then have "cm p_id = None" using build_connections_map_dom [OF assms, of p_id] by simp
  then show "relationship_errors cm p_id atr avail = []" by (simp add: relationship_errors_def)
next
  assume "p_id = []"
  then have "cm p_id = None" using build_connections_map_dom [OF assms, of p_id] by simp
  then show "relationship_errors cm p_id atr avail = []" by (simp add: relationship_errors_def)
next
  assume src: "p_id \<noteq> [] \<and> p_id \<in> from_id ` set conns"
  then obtain connected where c: "cm p_id = Some connected"
    using build_connections_map_dom [OF assms, of p_id] by auto
  have s: "set connected = outgoing conns p_id"
    using build_connections_map_val [OF assms c] src by simp
  have u: "set (unaccounted_rels avail atr connected) = set avail - (set atr \<union> outgoing conns p_id)"
    by (simp add: unaccounted_rels_set s)
  have e: "(unaccounted_rels avail atr connected \<noteq> [])
          = (set avail - (set atr \<union> outgoing conns p_id) \<noteq> {})"
    using u by (metis set_empty)
  show "(relationship_errors cm p_id atr avail \<noteq> [])
          = (set avail - (set atr \<union> outgoing conns p_id) \<noteq> {})"
    using c e by (simp add: relationship_errors_def Let_def)
  assume ne: "set avail - (set atr \<union> outgoing conns p_id) \<noteq> {}"
  then have "unaccounted_rels avail atr connected \<noteq> []" using e by simp
  then have "relationship_errors cm p_id atr avail
       = [''Relationships '' @ repr_set (unaccounted_rels avail atr connected)
            @ '' are not auto-terminated or connected.'']"
    using c by (simp add: relationship_errors_def Let_def)
  with u unaccounted_rels_distinct [of avail atr connected]
  show "\<exists>us. set us = set avail - (set atr \<union> outgoing conns p_id) \<and> distinct us
                  \<and> relationship_errors cm p_id atr avail
                      = [''Relationships '' @ repr_set us @ '' are not auto-terminated or connected.'']"
    by blast
qed


theorem relationship_errors_iff_unaccounted_witness:
  "build_connections_map [scenario_connection\<lparr>relationships := []\<rparr>] Map.empty
     = Inr [''p1'' \<mapsto> []]
   \<and> ''p1'' \<in> from_id ` set [scenario_connection\<lparr>relationships := []\<rparr>]
   \<and> set [''success'', ''failure'']
        - (set [''failure''] \<union> outgoing [scenario_connection\<lparr>relationships := []\<rparr>] ''p1'')
       \<noteq> {}
   \<and> relationship_errors [''p1'' \<mapsto> []] ''p1'' [''failure''] [''success'', ''failure''] \<noteq> []
   \<and> ''p2'' \<notin> from_id ` set [scenario_connection\<lparr>relationships := []\<rparr>]
   \<and> relationship_errors [''p1'' \<mapsto> []] ''p2'' [''failure''] [''success'', ''failure''] = []"
proof -
  have h: "build_connections_map [scenario_connection\<lparr>relationships := []\<rparr>] Map.empty
             = Inr [''p1'' \<mapsto> []]"
    by (simp add: scenario_connection_def ebind_def)
  have u: "set [''success'', ''failure'']
        - (set [''failure''] \<union> outgoing [scenario_connection\<lparr>relationships := []\<rparr>] ''p1'')
       \<noteq> {}"
    by (simp add: outgoing_def scenario_connection_def str_elems_def)
  show ?thesis
    using h u
      relationship_errors_iff_unaccounted [OF h, where p_id = "''p1''" and atr = "[''failure'']"
        and avail = "[''success'', ''failure'']"]
      relationship_errors_iff_unaccounted [OF h, where p_id = "''p2''" and atr = "[''failure'']"
        and avail = "[''success'', ''failure'']"]
    by (simp add: scenario_connection_def)
qed

text \<open>
  The claim as first stated fails for a processor whose id is the empty string: line 221
  leaves a connection with an empty \<^verbatim>\<open>from_id\<close> out of the map, so the processor is the
  source of a connection, \<open>success\<close> is unaccounted for, and no error is reported.
\<close>

theorem relationship_errors_empty_id_counterexample:
  "proc_id (scenario_processor\<lparr>proc_id := []\<rparr>)
     \<in> from_id ` set [scenario_connection\<lparr>from_id := [], relationships := []\<rparr>]
   \<and> set (pd_relationships scenario_instance)
        - (set [''failure'']
           \<union> outgoing [scenario_connection\<lparr>from_id := [], relationships := []\<rparr>] [])
       = {''success''}
   \<and> validate_processor_configuration no_oracle scenario_env
        [scenario_connection\<lparr>from_id := [], relationships := []\<rparr>]
        (initial_state [scenario_processor\<lparr>proc_id := []\<rparr>])
      = (\<lparr>procs = [scenario_processor\<lparr>proc_id := []\<rparr>], errors = [], changes_made = False,
          tick = 2, sandbox = [],
          sent = [Post \<lparr>pl_type = ''org.apache.nifi.processors.standard.RouteOnAttribute'',
                         pl_name = ''VALIDATION-Route'', pl_x = 0, pl_properties = [],
                         pl_strategy = None, pl_period = None, pl_tasks = None\<rparr>,
                  Delete ''instance-1'' 1 None],
          inspected = True\<rparr>, None)"
  by code_simp

text \<open>
  C7, as amended.  In the scenario (available relationships \<open>success\<close> and \<open>failure\<close>,
  \<open>failure\<close> auto-terminated, one outgoing connection carrying \<open>success\<close>) the run records
  no error.  After removing that connection the processor is no longer the source of any
  connection and the run again records no error.  When the connection is kept but
  carries no relationship, the run records exactly one relationship error, naming
  \<open>success\<close>.
\<close>

theorem scenario_relationship_errors:
  "errors (fst (validate_processor_configuration no_oracle scenario_env [scenario_connection]
                  (initial_state [scenario_processor]))) = []
   \<and> errors (fst (validate_processor_configuration no_oracle scenario_env []
                  (initial_state [scenario_processor]))) = []
   \<and> errors (fst (validate_processor_configuration no_oracle scenario_env
                  [scenario_connection\<lparr>relationships := []\<rparr>]
                  (initial_state [scenario_processor])))
      = [proc_prefix 0 ''Route'' @ '' Relationship Error: Relationships ''
           @ repr_set [''success''] @ '' are not auto-terminated or connected.'']"
  by code_simp

text \<open>
  The claim as first stated expects one relationship error after the connection is
  removed; the run records none, and the relationship check itself returns none.
\<close>

theorem scenario_removed_connection_counterexample:
  "build_connections_map [] Map.empty = Inr Map.empty
   \<and> relationship_errors Map.empty ''p1'' [''failure''] [''success'', ''failure''] = []
   \<and> snd (validate_processor_configuration no_oracle scenario_env []
             (initial_state [scenario_processor])) = None
   \<and> length (errors (fst (validate_processor_configuration no_oracle scenario_env []
                            (initial_state [scenario_processor])))) = 0"
proof -
  have "relationship_errors Map.empty ''p1'' [''failure''] [''success'', ''failure''] = []"
    by (simp add: relationship_errors_def)
  moreover have "validate_processor_configuration no_oracle scenario_env []
             (initial_state [scenario_processor])
      = (\<lparr>procs = [scenario_processor], errors = [], changes_made = False,
          tick = 2, sandbox = [],
          sent = [Post \<lparr>pl_type = ''org.apache.nifi.processors.standard.RouteOnAttribute'',
                         pl_name = ''VALIDATION-Route'', pl_x = 0, pl_properties = [],
                         pl_strategy = None, pl_period = None, pl_tasks = None\<rparr>,
                  Delete ''instance-1'' 1 None],
          inspected = True\<rparr>, None)"
    by code_simp
  ultimately show ?thesis by simp
qed

section \<open>Properties of the repair oracle client\<close>

lemma parse_config_fix_Some:
  "parse_config_fix json_loads raw = Some fixes \<longleftrightarrow>
     json_loads (unfence raw) = Some (JObj fixes)
     \<and> (get_truthy fixes ''properties'' \<or> get_truthy fixes ''auto_terminated_relationships'')"
  by (auto simp: parse_config_fix_def split: option.splits json.splits)

lemma parse_scheduling_fix_Some:
  "parse_scheduling_fix json_loads raw = Some v \<longleftrightarrow>
     (\<exists>fixes. json_loads (unfence raw) = Some (JObj fixes)
        \<and> v = (case map_of fixes ''scheduling'' of Some x \<Rightarrow> x | None \<Rightarrow> JObj fixes))"
  by (auto simp: parse_scheduling_fix_def split: option.splits json.splits)

lemma resolve_validation_Some:
  "resolve_validation_errors_with_llm cfg ev p es s = (Some fixes, s') \<Longrightarrow>
     oracle_object ev (tick s) = Some fixes
     \<and> (get_truthy fixes ''properties'' \<or> get_truthy fixes ''auto_terminated_relationships'')
     \<and> procs s' = procs s"
  by (auto simp: resolve_validation_errors_with_llm_def oracle_object_def parse_config_fix_Some Let_def
      split: if_splits option.splits)

lemma resolve_validation_procs:
  "resolve_validation_errors_with_llm cfg ev p es s = (r, s') \<Longrightarrow> procs s' = procs s"
  by (auto simp: resolve_validation_errors_with_llm_def Let_def split: if_splits option.splits)

lemma resolve_scheduling_Some:
  assumes "resolve_scheduling_errors_with_llm cfg ev sc e s = (Some v, s')"
  shows "(\<exists>fixes. oracle_object ev (tick s) = Some fixes
        \<and> v = (case map_of fixes ''scheduling'' of Some x \<Rightarrow> x | None \<Rightarrow> JObj fixes))
     \<and> procs s' = procs s"
proof -
  from assms obtain raw where r: "llm ev (tick s) = Some raw"
    and p: "parse_scheduling_fix (loads ev) raw = Some v" and q: "procs s' = procs s"
    by (auto simp: resolve_scheduling_errors_with_llm_def Let_def
        split: if_split_asm option.split_asm)
  from p obtain fx where f: "loads ev (unfence raw) = Some (JObj fx)"
    and v: "v = (case map_of fx ''scheduling'' of Some x \<Rightarrow> x | None \<Rightarrow> JObj fx)"
    unfolding parse_scheduling_fix_Some by blast
  from r f have "oracle_object ev (tick s) = Some fx" by (simp add: oracle_object_def)
  with v q show ?thesis by blast
qed

lemma resolve_scheduling_procs:
  "resolve_scheduling_errors_with_llm cfg ev sc e s = (r, s') \<Longrightarrow> procs s' = procs s"
  by (auto simp: resolve_scheduling_errors_with_llm_def Let_def split: if_splits option.splits)

lemma apply_fixes_procs:
  "procs (apply_fixes index fixes s) =
     (procs s)[index := (procs s ! index)\<lparr>properties := (case map_of fixes ''properties'' of
                                          Some v \<Rightarrow> v | None \<Rightarrow> properties (procs s ! index)),
                        auto_terminated_relationships :=
                          (case map_of fixes ''auto_terminated_relationships'' of
                             Some v \<Rightarrow> v | None \<Rightarrow> auto_terminated_relationships (procs s ! index))\<rparr>]"
proof (cases "index < length (procs s)")
  case True
  then show ?thesis by (auto simp: apply_fixes_def Let_def split: option.splits)
next
  case False
  then have "length (procs s) \<le> index" by simp
  then show ?thesis
    by (auto simp: apply_fixes_def Let_def list_update_beyond split: option.splits)
qed

lemma delete_instance_procs [simp]: "procs (delete_instance ev pd s) = procs s"
  by (simp add: delete_instance_def)

lemma auto_corrected_fst:
  "(case pd_descriptors pd of
      None \<Rightarrow> (p_properties, False)
    | Some descriptors \<Rightarrow> auto_correct descriptors p_properties False) = (props, ch)
   \<Longrightarrow> props = auto_corrected pd p_properties"
  by (auto simp: auto_corrected_def split: option.split_asm)

lemma inspect_created_written:
  assumes "inspect_created cfg ev cm index p_name p_id retry_count p_properties pd s = (s', out)"
    and "index < length (procs s)"
  shows "(out = Continue \<longrightarrow>
           (\<exists>fixes. oracle_object ev (Suc (tick s)) = Some fixes
              \<and> (get_truthy fixes ''properties'' \<or> get_truthy fixes ''auto_terminated_relationships'')
              \<and> procs s' =
                   (procs s)[index := (procs s ! index)\<lparr>properties := (case map_of fixes ''properties'' of
                                          Some v \<Rightarrow> v | None \<Rightarrow> JObj (auto_corrected pd p_properties)),
                        auto_terminated_relationships :=
                          (case map_of fixes ''auto_terminated_relationships'' of
                             Some v \<Rightarrow> v | None \<Rightarrow> auto_terminated_relationships (procs s ! index))\<rparr>]))
       \<and> (out \<noteq> Continue \<longrightarrow>
            procs s' = (procs s)[index := (procs s ! index)
                                   \<lparr>properties := JObj (auto_corrected pd p_properties)\<rparr>])"
proof -
  obtain props ch where ac: "(case pd_descriptors pd of
                           None \<Rightarrow> (p_properties, False)
                         | Some descriptors \<Rightarrow> auto_correct descriptors p_properties False) = (props, ch)"
    by (cases "(case pd_descriptors pd of
                           None \<Rightarrow> (p_properties, False)
                         | Some descriptors \<Rightarrow> auto_correct descriptors p_properties False)") auto
  have pr: "props = auto_corrected pd p_properties" by (rule auto_corrected_fst [OF ac])
  let ?ps1 = "(procs s)[index := (procs s ! index)\<lparr>properties := JObj props\<rparr>]"
  have p1: "?ps1 ! index = (procs s ! index)\<lparr>properties := JObj props\<rparr>"
    using assms(2) by simp
  show ?thesis
  proof (cases out)
    case Continue
    with assms(1) ac obtain fx s3 s4 pc es where
      r: "resolve_validation_errors_with_llm cfg ev pc es s3 = (Some fx, s4)"
      and t3: "tick s3 = Suc (tick s)" and p3: "procs s3 = ?ps1"
      and s': "s' = apply_fixes index fx s4"
      by (auto simp: inspect_created_def Let_def delete_instance_def
          split: if_split_asm option.split_asm prod.split_asm sum.split_asm)
    from resolve_validation_Some [OF r] t3 p3
    have o: "oracle_object ev (Suc (tick s)) = Some fx"
      and g: "get_truthy fx ''properties'' \<or> get_truthy fx ''auto_terminated_relationships''"
      and p4: "procs s4 = ?ps1" by auto
    have "procs s' =
           (procs s)[index := (procs s ! index)\<lparr>properties := (case map_of fx ''properties'' of
                                          Some v \<Rightarrow> v | None \<Rightarrow> JObj props),
                        auto_terminated_relationships :=
                          (case map_of fx ''auto_terminated_relationships'' of
                             Some v \<Rightarrow> v | None \<Rightarrow> auto_terminated_relationships (procs s ! index))\<rparr>]"
      unfolding s' apply_fixes_procs p4 p1 by (simp split: option.splits)
    with o g Continue pr show ?thesis by blast
  next
    case Break
    with assms(1) ac have "procs s' = ?ps1"
      by (auto simp: inspect_created_def Let_def delete_instance_def
          split: if_split_asm option.split_asm prod.split_asm sum.split_asm
          dest: resolve_validation_procs)
    with pr Break show ?thesis by auto
  next
    case (Raise e)
    with assms(1) ac have "procs s' = ?ps1"
      by (auto simp: inspect_created_def Let_def delete_instance_def
          split: if_split_asm option.split_asm prod.split_asm sum.split_asm
          dest: resolve_validation_procs)
    with pr Raise show ?thesis by auto
  qed
qed

text \<open>
  C10, as amended.  An attempt writes a fix into the plan only when it is retried, and
  then the fix is taken from a JSON object the oracle returned.  After a rejected
  creation (scheduling repair) the object's \<open>scheduling\<close> member, or the object itself
  when it has none, becomes the processor's scheduling, provided it is truthy.  After a
  created instance (configuration repair) the object must have a truthy \<open>properties\<close>
  or \<open>auto_terminated_relationships\<close> member, and each of the two members that is
  present replaces the processor's field; nothing else in the plan is written.  In every
  other case (the call fails, the text does not parse, it is not an object, or, for the
  configuration repair, it has neither member) the attempt is not retried and the plan
  holds nothing of the oracle's answer: it is as it was, but for the properties of the
  processor, which are those the automatic correction of lines 291--307 leaves.
\<close>

theorem oracle_fix_only_from_response:
  assumes "attempt cfg ev cm index p_name p_type p_id retry_count s = (s', out)"
    and "index < length (procs s)"
  shows "(out = Continue \<longrightarrow>
           (\<exists>status error_text fixes.
              post ev (tick s) = Rejected status error_text
              \<and> oracle_object ev (Suc (tick s)) = Some fixes
              \<and> truthy (case map_of fixes ''scheduling'' of Some v \<Rightarrow> v | None \<Rightarrow> JObj fixes)
              \<and> procs s' =
                   (procs s)[index := (procs s ! index)\<lparr>scheduling :=
                      (case map_of fixes ''scheduling'' of Some v \<Rightarrow> v | None \<Rightarrow> JObj fixes)\<rparr>])
         \<or> (\<exists>pd fixes p_properties.
              post ev (tick s) = Created pd
              \<and> properties (procs s ! index) = JObj p_properties
              \<and> oracle_object ev (Suc (Suc (tick s))) = Some fixes
              \<and> (get_truthy fixes ''properties'' \<or> get_truthy fixes ''auto_terminated_relationships'')
              \<and> procs s' =
                   (procs s)[index := (procs s ! index)\<lparr>properties := (case map_of fixes ''properties'' of
                                          Some v \<Rightarrow> v | None \<Rightarrow> JObj (auto_corrected pd p_properties)),
                        auto_terminated_relationships :=
                          (case map_of fixes ''auto_terminated_relationships'' of
                             Some v \<Rightarrow> v | None \<Rightarrow> auto_terminated_relationships (procs s ! index))\<rparr>]))
       \<and> (out \<noteq> Continue \<longrightarrow>
            procs s' = procs s
          \<or> (\<exists>pd p_properties.
               post ev (tick s) = Created pd
               \<and> properties (procs s ! index) = JObj p_properties
               \<and> procs s' = (procs s)[index := (procs s ! index)
                                        \<lparr>properties := JObj (auto_corrected pd p_properties)\<rparr>]))"
proof (cases "\<exists>p_properties sched. properties (procs s ! index) = JObj p_properties
                  \<and> scheduling (procs s ! index) = JObj sched")
  case False
  with assms(1) have "s' = s" and "out = Raise AttributeError"
    by (auto simp: attempt_def Let_def split: json.split_asm)
  then show ?thesis by simp
next
  case True
  then obtain p_properties sched where pp: "properties (procs s ! index) = JObj p_properties"
    and sc: "scheduling (procs s ! index) = JObj sched" by blast
  show ?thesis
  proof (cases "post ev (tick s)")
    case (RequestException e)
    with assms(1) pp sc have "procs s' = procs s" and "out = Break"
      by (auto simp: attempt_def Let_def)
    then show ?thesis by simp
  next
    case (Rejected status error_text)
    show ?thesis
    proof (cases out)
      case Continue
      with assms(1) pp sc Rejected obtain v s1 s2 where
        r: "resolve_scheduling_errors_with_llm cfg ev (JObj sched) error_text s1 = (Some v, s2)"
        and t1: "tick s1 = Suc (tick s)" and p1: "procs s1 = procs s"
        and tv: "truthy v"
        and s': "procs s' = (procs s2)[index := (procs s2 ! index)\<lparr>scheduling := v\<rparr>]"
        by (auto simp: attempt_def Let_def split: if_split_asm option.split_asm prod.split_asm)
      from resolve_scheduling_Some [OF r] t1 p1 obtain fx where
        o: "oracle_object ev (Suc (tick s)) = Some fx"
        and v: "v = (case map_of fx ''scheduling'' of Some x \<Rightarrow> x | None \<Rightarrow> JObj fx)"
        and p2: "procs s2 = procs s" by auto
      from s' p2 have "procs s' = (procs s)[index := (procs s ! index)\<lparr>scheduling := v\<rparr>]" by simp
      with o v tv Rejected Continue show ?thesis by blast
    next
      case Break
      with assms(1) pp sc Rejected have "procs s' = procs s"
        by (auto simp: attempt_def Let_def split: if_split_asm option.split_asm prod.split_asm
            dest: resolve_scheduling_procs)
      with Break show ?thesis by simp
    next
      case (Raise e)
      with assms(1) pp sc Rejected have "procs s' = procs s"
        by (auto simp: attempt_def Let_def split: if_split_asm option.split_asm prod.split_asm
            dest: resolve_scheduling_procs)
      with Raise show ?thesis by simp
    qed
  next
    case (Created pd)
    let ?s1 = "s\<lparr>tick := Suc (tick s),
                 sent := sent s @ [Post \<lparr>pl_type = p_type, pl_name = ''VALIDATION-'' @ p_name,
                          pl_x = index * 500,
                          pl_properties = filter (\<lambda>(k, v). isinstance v PyStr) p_properties,
                          pl_strategy = map_of sched ''strategy'',
                          pl_period = map_of sched ''period'',
                          pl_tasks = map_of sched ''concurrent_tasks''\<rparr>],
                 sandbox := pd_id pd # sandbox s\<rparr>"
    from assms(1) pp sc Created
    have i: "inspect_created cfg ev cm index p_name p_id retry_count p_properties pd ?s1 = (s', out)"
      by (simp add: attempt_def Let_def)
    have l: "index < length (procs ?s1)" using assms(2) by simp
    have ps: "procs ?s1 = procs s" and ts: "tick ?s1 = Suc (tick s)" by simp_all
    from inspect_created_written [OF i l, unfolded ps ts] Created pp show ?thesis by blast
  qed
qed

theorem oracle_fix_only_from_response_witness:
  "snd (attempt with_oracle scheduling_env Map.empty 0 ''Route'' ''RouteOnAttribute'' ''p1'' 0
          (initial_state [scenario_processor])) = Continue
   \<and> 0 < length (procs (initial_state [scenario_processor]))
   \<and> oracle_object scheduling_env 1 = Some scheduling_object
   \<and> procs (fst (attempt with_oracle scheduling_env Map.empty 0 ''Route'' ''RouteOnAttribute'' ''p1'' 0
                   (initial_state [scenario_processor])))
       = [scenario_processor\<lparr>scheduling := JObj scheduling_object\<rparr>]
   \<and> snd (attempt with_oracle (failing_env\<lparr>llm := always (Some stray_answer),
                 loads := map_of [(stray_answer, JObj stray_object)]\<rparr>)
            Map.empty 0 ''Route'' ''RouteOnAttribute'' ''p1'' 0
            (initial_state [scenario_processor])) = Break
   \<and> oracle_object (failing_env\<lparr>llm := always (Some stray_answer),
                 loads := map_of [(stray_answer, JObj stray_object)]\<rparr>) 2
       = Some stray_object
   \<and> procs (fst (attempt with_oracle (failing_env\<lparr>llm := always (Some stray_answer),
                 loads := map_of [(stray_answer, JObj stray_object)]\<rparr>)
                   Map.empty 0 ''Route'' ''RouteOnAttribute'' ''p1'' 0
                   (initial_state [scenario_processor])))
       = [scenario_processor]"
proof -
  let ?a = "attempt with_oracle scheduling_env Map.empty 0 ''Route'' ''RouteOnAttribute'' ''p1'' 0
              (initial_state [scenario_processor])"
  let ?ev = "failing_env\<lparr>llm := always (Some stray_answer),
                 loads := map_of [(stray_answer, JObj stray_object)]\<rparr>"
  let ?b = "attempt with_oracle ?ev Map.empty 0 ''Route'' ''RouteOnAttribute'' ''p1'' 0
              (initial_state [scenario_processor])"
  have c: "snd ?a = Continue" by code_simp
  then have h: "?a = (fst ?a, Continue)" by (metis prod.collapse)
  have l: "0 < length (procs (initial_state [scenario_processor]))"
    by (simp add: initial_state_def)
  have o: "oracle_object scheduling_env 1 = Some scheduling_object" by code_simp
  have t: "tick (initial_state [scenario_processor]) = 0"
    and p: "procs (initial_state [scenario_processor]) = [scenario_processor]"
    and r: "post scheduling_env 0 = Rejected 400 ''Invalid Scheduling Period: 1 minute''"
    and m: "map_of scheduling_object ''scheduling'' = None"
    by (simp_all add: initial_state_def scheduling_env_def always_def scheduling_object_def)
  from oracle_fix_only_from_response [OF h l]
  have a: "procs (fst ?a) = [scenario_processor\<lparr>scheduling := JObj scheduling_object\<rparr>]"
    unfolding t p r using o m by (auto simp: numeral_eq_Suc)
  have d: "snd ?b = Break" by code_simp
  then have g: "?b = (fst ?b, Break)" by (metis prod.collapse)
  have o2: "oracle_object ?ev 2 = Some stray_object" by code_simp
  have r2: "post ?ev 0 = Created (scenario_instance
                \<lparr>pd_validation_errors := [''Directory is invalid because it is required'']\<rparr>)"
    by (simp add: failing_env_def always_def)
  have ac: "JObj (auto_corrected (scenario_instance
                \<lparr>pd_validation_errors := [''Directory is invalid because it is required'']\<rparr>) [])
            = properties scenario_processor"
    by (simp add: auto_corrected_def scenario_instance_def scenario_processor_def)
  from oracle_fix_only_from_response [OF g l]
  have b: "procs (fst ?b) = [scenario_processor]"
    unfolding t p r2 using ac by (auto simp: scenario_processor_def)
  from c l o a d o2 b show ?thesis by simp
qed

text \<open>
  The claim as first stated fails for the scheduling repair: the oracle's object has
  none of the expected keys (no \<open>properties\<close>, no \<open>auto_terminated_relationships\<close>,
  no \<open>scheduling\<close>, nor a key of a scheduling configuration) and is written into the
  plan as the processor's scheduling.
\<close>

theorem scheduling_fix_counterexample:
  "oracle_object stray_env 1 = Some stray_object
   \<and> map_of stray_object ''properties'' = None
   \<and> map_of stray_object ''auto_terminated_relationships'' = None
   \<and> map_of stray_object ''scheduling'' = None
   \<and> map_of stray_object ''strategy'' = None
   \<and> map_of stray_object ''period'' = None
   \<and> parse_scheduling_fix (loads stray_env) stray_answer = Some (JObj stray_object)
   \<and> map scheduling (procs (fst (validate_processor_configuration with_oracle stray_env []
                                    (initial_state [scenario_processor]))))
       = [JObj stray_object]
   \<and> changes_made (fst (validate_processor_configuration with_oracle stray_env []
                           (initial_state [scenario_processor])))"
  by code_simp

section \<open>Properties of the automatic correction\<close>

lemma map_of_dict_set:
  "map_of (dict_set kvs k v) k' = (if k' = k then Some v else map_of kvs k')"
  by (induction kvs) auto

lemma auto_correct_other:
  "name \<notin> fst ` set ds \<Longrightarrow> map_of (fst (auto_correct ds props ch)) name = map_of props name"
  by (induction ds props ch rule: auto_correct.induct)
     (auto simp: map_of_dict_set split: option.splits)

lemma single_choice_Some:
  "single_choice d = Some v \<longleftrightarrow> identifies_cs d \<and> allowable_values d = Some [v]"
  by (auto simp: single_choice_def split: option.splits list.splits)

lemma auto_correct_single:
  "distinct (map fst ds) \<Longrightarrow> (name, d) \<in> set ds \<Longrightarrow> single_choice d = Some v \<Longrightarrow>
     map_of (fst (auto_correct ds props ch)) name = Some (JStr v)"
proof (induction ds props ch rule: auto_correct.induct)
  case (1 props ch)
  then show ?case by simp
next
  case (2 prop_name d' ds props ch)
  show ?case
  proof (cases "(name, d) = (prop_name, d')")
    case True
    with "2.prems" have n: "name \<notin> fst ` set ds" by auto
    from True "2.prems" n show ?thesis
      by (auto simp: auto_correct_other map_of_dict_set)
  next
    case False
    with "2.prems" have "(name, d) \<in> set ds" "distinct (map fst ds)" by auto
    with "2.IH" "2.prems"(3) show ?thesis
      by (auto split: option.splits)
  qed
qed

lemma apply_fixes_length [simp]: "length (procs (apply_fixes index fixes s)) = length (procs s)"
  by (auto simp: apply_fixes_def Let_def split: option.splits)

lemma inspect_created_corrected:
  assumes "inspect_created cfg ev cm index p_name p_id retry_count p_properties pd s = (s', out)"
    and "index < length (procs s)"
    and "pd_descriptors pd = Some ds" and "distinct (map fst ds)" and "(name, d) \<in> set ds"
    and "single_choice d = Some v" and "out \<noteq> Continue"
  shows "property_value (procs s' ! index) name = Some (JStr v)"
proof -
  obtain props ch where ac: "auto_correct ds p_properties False = (props, ch)"
    by (cases "auto_correct ds p_properties False") auto
  have m: "map_of props name = Some (JStr v)"
    using auto_correct_single [OF assms(4,5,6), of p_properties False] ac by simp
  let ?ps1 = "(procs s)[index := (procs s ! index)\<lparr>properties := JObj props\<rparr>]"
  from assms(1,3,7) ac have "procs s' = ?ps1"
    by (cases out)
       (auto simp: inspect_created_def Let_def delete_instance_def
          split: if_split_asm option.split_asm prod.split_asm sum.split_asm
          dest: resolve_validation_procs)
  with assms(2) m show ?thesis by (simp add: property_value_def)
qed


lemma inspect_created_length:
  "inspect_created cfg ev cm index p_name p_id retry_count p_properties pd s = (s', out) \<Longrightarrow>
     length (procs s') = length (procs s)"
  by (auto simp: inspect_created_def Let_def delete_instance_def
        split: if_split_asm option.split_asm prod.split_asm sum.split_asm
        dest!: resolve_validation_procs)

lemma inspect_created_continue:
  "inspect_created cfg ev cm index p_name p_id retry_count p_properties pd s = (s', Continue) \<Longrightarrow>
     int retry_count < max_retries cfg \<and> gemini_api_key cfg"
  by (auto simp: inspect_created_def Let_def
        split: if_split_asm option.split_asm prod.split_asm sum.split_asm)

lemma attempt_length:
  "attempt cfg ev cm index p_name p_type p_id retry_count s = (s', out) \<Longrightarrow>
     length (procs s') = length (procs s)"
  by (auto simp: attempt_def Let_def
        split: json.split_asm create_response.split_asm if_split_asm option.split_asm prod.split_asm
        dest!: resolve_scheduling_procs inspect_created_length)

lemma attempt_continue:
  "attempt cfg ev cm index p_name p_type p_id retry_count s = (s', Continue) \<Longrightarrow>
     int retry_count < max_retries cfg \<and> gemini_api_key cfg"
  by (auto simp: attempt_def Let_def
        split: json.split_asm create_response.split_asm if_split_asm option.split_asm prod.split_asm
        dest!: inspect_created_continue)

lemma attempt_corrected:
  assumes "attempt cfg ev cm index p_name p_type p_id retry_count s = (s', out)"
    and "index < length (procs s)"
    and "post ev (tick s) = Created pd"
    and "pd_descriptors pd = Some ds" and "distinct (map fst ds)" and "(name, d) \<in> set ds"
    and "single_choice d = Some v" and "out \<noteq> Continue" and "out \<noteq> Raise AttributeError"
  shows "property_value (procs s' ! index) name = Some (JStr v)"
proof -
  from assms(1,9) obtain p_properties sched where
    pp: "properties (procs s ! index) = JObj p_properties"
    and sc: "scheduling (procs s ! index) = JObj sched"
    by (auto simp: attempt_def Let_def split: json.split_asm)
  from assms(1,3) pp sc obtain s1 where
    i: "inspect_created cfg ev cm index p_name p_id retry_count p_properties pd s1 = (s', out)"
    and l: "procs s1 = procs s"
    by (auto simp: attempt_def Let_def)
  from assms(2) l have "index < length (procs s1)" by simp
  from inspect_created_corrected [OF i this assms(4,5,6,7,8)] show ?thesis .
qed

lemma attempts_corrected:
  assumes "attempts cfg ev cm index p_name p_type p_id retry_count s = (s', r)"
    and "int retry_count < max_attempts cfg"
    and "index < length (procs s)"
    and "\<forall>n. \<exists>pd ds. post ev n = Created pd \<and> pd_descriptors pd = Some ds
             \<and> distinct (map fst ds) \<and> (name, d) \<in> set ds"
    and "single_choice d = Some v"
    and "r \<noteq> Some AttributeError"
  shows "property_value (procs s' ! index) name = Some (JStr v)"
  using assms
proof (induction cfg ev cm index p_name p_type p_id retry_count s rule: attempts.induct)
  case (1 cfg ev cm index p_name p_type p_id retry_count s)
  obtain s1 out where a: "attempt cfg ev cm index p_name p_type p_id retry_count s = (s1, out)"
    by (cases "attempt cfg ev cm index p_name p_type p_id retry_count s") auto
  from "1.prems"(4) obtain pd ds where e: "post ev (tick s) = Created pd" "pd_descriptors pd = Some ds"
    "distinct (map fst ds)" "(name, d) \<in> set ds" by blast
  show ?case
  proof (cases out)
    case Break
    with a "1.prems"(1,2) have "s' = s1"
      by (simp add: attempts.simps [of _ _ _ _ _ _ _ retry_count])
    with attempt_corrected [OF a "1.prems"(3) e "1.prems"(5)] Break show ?thesis by simp
  next
    case (Raise x)
    with a "1.prems"(1,2) have "s' = s1" "r = Some x"
      by (simp_all add: attempts.simps [of _ _ _ _ _ _ _ retry_count])
    with attempt_corrected [OF a "1.prems"(3) e "1.prems"(5)] Raise "1.prems"(6)
    show ?thesis by simp
  next
    case Continue
    with a "1.prems"(1,2)
    have rec: "attempts cfg ev cm index p_name p_type p_id (Suc retry_count) s1 = (s', r)"
      by (simp add: attempts.simps [of _ _ _ _ _ _ _ retry_count])
    from attempt_continue a Continue have "int retry_count < max_retries cfg" "gemini_api_key cfg"
      by blast+
    then have lt: "int (Suc retry_count) < max_attempts cfg" by (simp add: max_attempts_def)
    from attempt_length [OF a] "1.prems"(3) have len: "index < length (procs s1)" by simp
    from "1.IH" [OF "1.prems"(2) a [symmetric] _ rec lt len "1.prems"(4,5,6)] Continue
    show ?thesis by simp
  qed
qed


text \<open>
  C5, as amended.  Let a property descriptor identify a controller service and expose
  exactly one allowable value.  In every attempt in which the runtime creates the
  instance and returns that descriptor, and which is not retried with an oracle fix, the
  plan's property equals that value when the attempt ends, whatever it was before; the
  correction is made in every such attempt, the final one included, and before any
  oracle call.  So when the runtime creates every instance asked for and always returns
  that descriptor, the property equals that value when the processor's validation ends.
  (An attempt that raises \<^verbatim>\<open>AttributeError\<close> sends no creation request at all.)
\<close>

theorem single_choice_auto_corrected:
  assumes "identifies_cs d" and "allowable_values d = Some [v]" and "index < length (procs s)"
  shows "(\<forall>s' out pd ds.
            attempt cfg ev cm index p_name p_type p_id retry_count s = (s', out)
            \<and> post ev (tick s) = Created pd \<and> pd_descriptors pd = Some ds
            \<and> distinct (map fst ds) \<and> (name, d) \<in> set ds
            \<and> out \<noteq> Continue \<and> out \<noteq> Raise AttributeError
            \<longrightarrow> property_value (procs s' ! index) name = Some (JStr v))
       \<and> (\<forall>s' r.
            attempts cfg ev cm index p_name p_type p_id retry_count s = (s', r)
            \<and> int retry_count < max_attempts cfg
            \<and> (\<forall>n. \<exists>pd ds. post ev n = Created pd \<and> pd_descriptors pd = Some ds
                     \<and> distinct (map fst ds) \<and> (name, d) \<in> set ds)
            \<and> r \<noteq> Some AttributeError
            \<longrightarrow> property_value (procs s' ! index) name = Some (JStr v))"
proof -
  from assms(1,2) have sc: "single_choice d = Some v" by (simp add: single_choice_Some)
  show ?thesis
  proof (intro conjI allI impI)
    fix s' out pd ds
    assume "attempt cfg ev cm index p_name p_type p_id retry_count s = (s', out)
            \<and> post ev (tick s) = Created pd \<and> pd_descriptors pd = Some ds
            \<and> distinct (map fst ds) \<and> (name, d) \<in> set ds
            \<and> out \<noteq> Continue \<and> out \<noteq> Raise AttributeError"
    then show "property_value (procs s' ! index) name = Some (JStr v)"
      using attempt_corrected [of cfg ev cm index p_name p_type p_id retry_count s s' out pd ds name d v]
        assms(3) sc by blast
  next
    fix s' r
    assume "attempts cfg ev cm index p_name p_type p_id retry_count s = (s', r)
            \<and> int retry_count < max_attempts cfg
            \<and> (\<forall>n. \<exists>pd ds. post ev n = Created pd \<and> pd_descriptors pd = Some ds
                     \<and> distinct (map fst ds) \<and> (name, d) \<in> set ds)
            \<and> r \<noteq> Some AttributeError"
    then show "property_value (procs s' ! index) name = Some (JStr v)"
      using attempts_corrected [of cfg ev cm index p_name p_type p_id retry_count s s' r name d v]
        assms(3) sc by blast
  qed
qed

theorem single_choice_auto_corrected_witness:
  "identifies_cs reader_descriptor
   \<and> allowable_values reader_descriptor = Some [''reader-service-1'']
   \<and> property_value (scenario_processor\<lparr>properties := JObj [(''Record Reader'', JStr ''old-reader'')]\<rparr>)
        ''Record Reader'' = Some (JStr ''old-reader'')
   \<and> snd (attempts no_oracle (described_env ''Record Reader'' reader_descriptor) Map.empty 0
             ''Route'' ''RouteOnAttribute'' ''p1'' 0
             (initial_state [scenario_processor\<lparr>properties := JObj [(''Record Reader'', JStr ''old-reader'')]\<rparr>]))
       = None
   \<and> property_value
        (procs (fst (attempts no_oracle (described_env ''Record Reader'' reader_descriptor) Map.empty 0
             ''Route'' ''RouteOnAttribute'' ''p1'' 0
             (initial_state [scenario_processor\<lparr>properties := JObj [(''Record Reader'', JStr ''old-reader'')]\<rparr>])))
         ! 0) ''Record Reader''
       = Some (JStr ''reader-service-1'')"
proof -
  let ?s = "initial_state [scenario_processor\<lparr>properties := JObj [(''Record Reader'', JStr ''old-reader'')]\<rparr>]"
  let ?ev = "described_env ''Record Reader'' reader_descriptor"
  let ?a = "attempts no_oracle ?ev Map.empty 0 ''Route'' ''RouteOnAttribute'' ''p1'' 0 ?s"
  have d1: "identifies_cs reader_descriptor"
    and d2: "allowable_values reader_descriptor = Some [''reader-service-1'']"
    by (simp_all add: reader_descriptor_def)
  have l: "0 < length (procs ?s)" by (simp add: initial_state_def)
  have r: "snd ?a = None" by code_simp
  then have a: "?a = (fst ?a, None)" by (metis prod.collapse)
  have m: "int 0 < max_attempts no_oracle" by (simp add: max_attempts_def no_oracle_def)
  have e: "\<forall>n. \<exists>pd ds. post ?ev n = Created pd \<and> pd_descriptors pd = Some ds
                     \<and> distinct (map fst ds) \<and> (''Record Reader'', reader_descriptor) \<in> set ds"
    by (simp add: described_env_def scenario_env_def always_def scenario_instance_def)
  have p: "property_value (scenario_processor\<lparr>properties := JObj [(''Record Reader'', JStr ''old-reader'')]\<rparr>)
        ''Record Reader'' = Some (JStr ''old-reader'')"
    by (simp add: property_value_def)
  from single_choice_auto_corrected [OF d1 d2 l, of no_oracle ?ev Map.empty "''Route''"
      "''RouteOnAttribute''" "''p1''" 0 "''Record Reader''"] a m e
  have "property_value (procs (fst ?a) ! 0) ''Record Reader'' = Some (JStr ''reader-service-1'')"
    by blast
  with d1 d2 p r show ?thesis by simp
qed

text \<open>
  The claim as first stated fails for a property that does not identify a controller
  service: its descriptor has the single allowable value \<open>none\<close>, the plan says \<open>gzip\<close>,
  and the run ends without error and without having rewritten the property.
\<close>

theorem single_choice_not_service_counterexample:
  "allowable_values compression_descriptor = Some [''none'']
   \<and> validate_processor_configuration no_oracle
        (described_env ''Compression Format'' compression_descriptor) []
        (initial_state [scenario_processor\<lparr>properties := JObj [(''Compression Format'', JStr ''gzip'')]\<rparr>])
      = (\<lparr>procs = [scenario_processor\<lparr>properties := JObj [(''Compression Format'', JStr ''gzip'')]\<rparr>],
          errors = [], changes_made = False, tick = 2, sandbox = [],
          sent = [Post \<lparr>pl_type = ''org.apache.nifi.processors.standard.RouteOnAttribute'',
                         pl_name = ''VALIDATION-Route'', pl_x = 0,
                         pl_properties = [(''Compression Format'', JStr ''gzip'')],
                         pl_strategy = None, pl_period = None, pl_tasks = None\<rparr>,
                  Delete ''instance-1'' 1 None],
          inspected = True\<rparr>, None)"
  by code_simp

section \<open>What an attempt leaves behind\<close>

lemma posts_update [simp]:
  "posts (s\<lparr>procs := a\<rparr>) = posts s"
  "posts (s\<lparr>errors := b\<rparr>) = posts s"
  "posts (s\<lparr>changes_made := c\<rparr>) = posts s"
  "posts (s\<lparr>tick := d\<rparr>) = posts s"
  "posts (s\<lparr>sandbox := e\<rparr>) = posts s"
  "posts (s\<lparr>inspected := f\<rparr>) = posts s"
  "posts (s\<lparr>sent := evs\<rparr>) = length (filter is_post evs)"
  by (simp_all add: posts_def)

lemma asks_update [simp]:
  "asks (s\<lparr>procs := a\<rparr>) = asks s"
  "asks (s\<lparr>errors := b\<rparr>) = asks s"
  "asks (s\<lparr>changes_made := c\<rparr>) = asks s"
  "asks (s\<lparr>tick := d\<rparr>) = asks s"
  "asks (s\<lparr>sandbox := e\<rparr>) = asks s"
  "asks (s\<lparr>inspected := f\<rparr>) = asks s"
  "asks (s\<lparr>sent := evs\<rparr>) = length (filter is_ask evs)"
  by (simp_all add: asks_def)

lemma posts_fold [simp]: "length (filter is_post (sent s)) = posts s"
  by (simp add: posts_def)

lemma asks_fold [simp]: "length (filter is_ask (sent s)) = asks s"
  by (simp add: asks_def)

lemma resolve_validation_frame:
  "resolve_validation_errors_with_llm cfg ev p es s = (r, s') \<Longrightarrow>
     sandbox s' = sandbox s \<and> posts s' = posts s \<and> asks s \<le> asks s'
     \<and> (r \<noteq> None \<longrightarrow> asks s' = Suc (asks s))"
  by (auto simp: resolve_validation_errors_with_llm_def Let_def
        split: if_split_asm option.split_asm)

lemma resolve_scheduling_frame:
  "resolve_scheduling_errors_with_llm cfg ev sc e s = (r, s') \<Longrightarrow>
     sandbox s' = sandbox s \<and> posts s' = posts s \<and> asks s \<le> asks s'
     \<and> (r \<noteq> None \<longrightarrow> asks s' = Suc (asks s))"
  by (auto simp: resolve_scheduling_errors_with_llm_def Let_def
        split: if_split_asm option.split_asm)

lemma apply_fixes_frame [simp]:
  "sandbox (apply_fixes index fixes s) = sandbox s"
  "posts (apply_fixes index fixes s) = posts s"
  "asks (apply_fixes index fixes s) = asks s"
  by (auto simp: apply_fixes_def Let_def split: option.splits)

lemma delete_instance_frame [simp]:
  "posts (delete_instance ev pd s) = posts s"
  "asks (delete_instance ev pd s) = asks s"
  "sandbox (delete_instance ev pd s)
     = (if delete_ok ev (tick s) then remove1 (pd_id pd) (sandbox s) else sandbox s)"
  by (auto simp: delete_instance_def)

lemma dynamic_check_raises:
  "dynamic_check b pd ks = Some e \<Longrightarrow> \<exists>x. e = UnboundLocalError x"
  by (auto simp: dynamic_check_def split: if_split_asm option.split_asm)

lemma hashable_strs_raises: "hashable_strs xs = Inl e \<Longrightarrow> e = TypeError"
  by (induction xs rule: hashable_strs.induct) (auto simp: ebind_def split: sum.split_asm)

lemma py_set_raises: "py_set j = Inl e \<Longrightarrow> e = TypeError"
  by (cases j) (auto dest: hashable_strs_raises)

text \<open>What an attempt leaves in the sandbox and adds to the requests sent.\<close>

lemma inspect_created_frame:
  assumes "inspect_created cfg ev cm index p_name p_id retry_count p_properties pd s = (s', out)"
  shows "posts s' = posts s \<and> asks s \<le> asks s' \<and> (out = Continue \<longrightarrow> asks s' = Suc (asks s))
    \<and> (delete_ok ev (tick s) \<and> (\<forall>x. out \<noteq> Raise (UnboundLocalError x)) \<and> out \<noteq> Raise TypeError
          \<longrightarrow> sandbox s' = remove1 (pd_id pd) (sandbox s))"
proof -
  obtain props ch where ac: "(case pd_descriptors pd of
                           None \<Rightarrow> (p_properties, False)
                         | Some descriptors \<Rightarrow> auto_correct descriptors p_properties False) = (props, ch)"
    by (cases "(case pd_descriptors pd of
                           None \<Rightarrow> (p_properties, False)
                         | Some descriptors \<Rightarrow> auto_correct descriptors p_properties False)") auto
  from assms ac show ?thesis
    by (auto simp: inspect_created_def Let_def
          split: if_split_asm option.split_asm prod.split_asm sum.split_asm
          dest!: resolve_validation_frame dynamic_check_raises py_set_raises)
qed


lemma attempt_frame:
  assumes "attempt cfg ev cm index p_name p_type p_id retry_count s = (s', out)"
  shows "posts s' \<le> Suc (posts s) \<and> asks s \<le> asks s'
    \<and> (out = Continue \<longrightarrow> posts s' = Suc (posts s) \<and> asks s' = Suc (asks s)
           \<and> int retry_count < max_retries cfg \<and> gemini_api_key cfg)
    \<and> (out \<noteq> Raise AttributeError \<longrightarrow> posts s' = Suc (posts s))
    \<and> ((\<forall>n. delete_ok ev n) \<and> (\<forall>x. out \<noteq> Raise (UnboundLocalError x)) \<and> out \<noteq> Raise TypeError
          \<longrightarrow> sandbox s' = sandbox s)"
proof (cases "\<exists>p_properties sched. properties (procs s ! index) = JObj p_properties
                  \<and> scheduling (procs s ! index) = JObj sched")
  case False
  with assms have "s' = s" and "out = Raise AttributeError"
    by (auto simp: attempt_def Let_def split: json.split_asm)
  then show ?thesis by simp
next
  case True
  then obtain p_properties sched where pp: "properties (procs s ! index) = JObj p_properties"
    and sc: "scheduling (procs s ! index) = JObj sched" by blast
  show ?thesis
  proof (cases "post ev (tick s)")
    case (RequestException e)
    with assms pp sc show ?thesis by (auto simp: attempt_def Let_def)
  next
    case (Rejected status error_text)
    with assms pp sc show ?thesis
      by (auto simp: attempt_def Let_def
            split: if_split_asm option.split_asm prod.split_asm
            dest!: resolve_scheduling_frame)
  next
    case (Created pd)
    with assms pp sc obtain s1 where
      i: "inspect_created cfg ev cm index p_name p_id retry_count p_properties pd s1 = (s', out)"
      and p1: "posts s1 = Suc (posts s)" and a1: "asks s1 = asks s"
      and b1: "sandbox s1 = pd_id pd # sandbox s"
      by (auto simp: attempt_def Let_def)
    from inspect_created_frame [OF i] inspect_created_continue [of cfg ev cm index p_name p_id
        retry_count p_properties pd s1 s'] i p1 a1 b1
    show ?thesis by auto
  qed
qed

lemma attempts_frame:
  assumes "attempts cfg ev cm index p_name p_type p_id retry_count s = (s', r)"
  shows "posts s' \<le> posts s + nat (max_attempts cfg - int retry_count)
    \<and> posts s' + asks s \<le> Suc (posts s + asks s')
    \<and> (\<not> gemini_api_key cfg \<and> int retry_count < max_attempts cfg \<and> r \<noteq> Some AttributeError
          \<longrightarrow> posts s' = Suc (posts s))
    \<and> ((\<forall>n. delete_ok ev n) \<and> (\<forall>x. r \<noteq> Some (UnboundLocalError x)) \<and> r \<noteq> Some TypeError
          \<longrightarrow> sandbox s' = sandbox s)"
  using assms
proof (induction cfg ev cm index p_name p_type p_id retry_count s rule: attempts.induct)
  case (1 cfg ev cm index p_name p_type p_id retry_count s)
  show ?case
  proof (cases "int retry_count < max_attempts cfg")
    case False
    with "1.prems" show ?thesis
      by (simp add: attempts.simps [of _ _ _ _ _ _ _ retry_count])
  next
    case True
    obtain s1 out where a: "attempt cfg ev cm index p_name p_type p_id retry_count s = (s1, out)"
      by (cases "attempt cfg ev cm index p_name p_type p_id retry_count s") auto
    note f = attempt_frame [OF a]
    show ?thesis
    proof (cases out)
      case Break
      with a True "1.prems" have "s' = s1" "r = None"
        by (simp_all add: attempts.simps [of _ _ _ _ _ _ _ retry_count])
      with f Break True show ?thesis by auto
    next
      case (Raise x)
      with a True "1.prems" have "s' = s1" "r = Some x"
        by (simp_all add: attempts.simps [of _ _ _ _ _ _ _ retry_count])
      with f Raise True show ?thesis by auto
    next
      case Continue
      with a True "1.prems"
      have rec: "attempts cfg ev cm index p_name p_type p_id (Suc retry_count) s1 = (s', r)"
        by (simp add: attempts.simps [of _ _ _ _ _ _ _ retry_count])
      note ih = "1.IH" [OF True a [symmetric] _ rec]
      from f Continue have k: "gemini_api_key cfg" and p: "posts s1 = Suc (posts s)"
        and q: "asks s1 = Suc (asks s)"
        and b: "(\<forall>n. delete_ok ev n) \<longrightarrow> sandbox s1 = sandbox s" by auto
      from ih Continue k p q b True show ?thesis by auto
    qed
  qed
qed

lemma validate_from_sandbox:
  assumes "validate_from cfg ev cm index ps s = (s', r)"
    and "\<forall>n. delete_ok ev n" and "\<forall>x. r \<noteq> Some (UnboundLocalError x)" and "r \<noteq> Some TypeError"
  shows "sandbox s' = sandbox s"
  using assms
proof (induction ps arbitrary: index s)
  case Nil
  then show ?case by simp
next
  case (Cons p ps)
  obtain s1 r1 where a: "attempts cfg ev cm index (proc_name p) (proc_type p) (proc_id p) 0 s = (s1, r1)"
    by (cases "attempts cfg ev cm index (proc_name p) (proc_type p) (proc_id p) 0 s") auto
  show ?case
  proof (cases r1)
    case None
    with a Cons.prems(1) have v: "validate_from cfg ev cm (Suc index) ps s1 = (s', r)" by simp
    from attempts_frame [OF a] None Cons.prems(2) have "sandbox s1 = sandbox s" by simp
    with Cons.IH [OF v Cons.prems(2,3,4)] show ?thesis by simp
  next
    case (Some e)
    with a Cons.prems(1) have "s' = s1" "r = Some e" by simp_all
    with attempts_frame [OF a] Some Cons.prems(2,3,4) show ?thesis by simp
  qed
qed

section \<open>Properties of the sandbox cleanup\<close>

text \<open>
  C1, as amended.  Suppose the runtime honours every deletion request.  An attempt that
  does not raise between the creation and the deletion request (lines 287--352) leaves
  the sandbox as it found it, whether it ends in success, in recorded errors, in a retry
  with a fix, or with the retry budget used up: the instance it created has been deleted
  before the run moves on.  Hence a run that ends without such an exception leaves the
  sandbox as it found it.  (The exceptions raised between creation and deletion are
  \<^verbatim>\<open>UnboundLocalError\<close> and \<^verbatim>\<open>TypeError\<close>; no handler deletes the instance then.)
\<close>

theorem sandbox_left_clean:
  assumes "\<forall>n. delete_ok ev n"
  shows "(\<forall>s' out. attempt cfg ev cm index p_name p_type p_id retry_count s = (s', out)
             \<and> (\<forall>x. out \<noteq> Raise (UnboundLocalError x)) \<and> out \<noteq> Raise TypeError
             \<longrightarrow> sandbox s' = sandbox s)
       \<and> (\<forall>s' r. validate_processor_configuration cfg ev conns s = (s', r)
             \<and> (\<forall>x. r \<noteq> Some (UnboundLocalError x)) \<and> r \<noteq> Some TypeError
             \<longrightarrow> sandbox s' = sandbox s)"
proof (intro conjI allI impI)
  fix s' out
  assume "attempt cfg ev cm index p_name p_type p_id retry_count s = (s', out)
             \<and> (\<forall>x. out \<noteq> Raise (UnboundLocalError x)) \<and> out \<noteq> Raise TypeError"
  with attempt_frame [of cfg ev cm index p_name p_type p_id retry_count s s' out] assms
  show "sandbox s' = sandbox s" by blast
next
  fix s' r
  assume a: "validate_processor_configuration cfg ev conns s = (s', r)
             \<and> (\<forall>x. r \<noteq> Some (UnboundLocalError x)) \<and> r \<noteq> Some TypeError"
  show "sandbox s' = sandbox s"
  proof (cases "sandbox_pg_id cfg = []")
    case True
    with a show ?thesis by (auto simp: validate_processor_configuration_def)
  next
    case False
    show ?thesis
    proof (cases "build_connections_map conns Map.empty")
      case (Inl e)
      with a False show ?thesis by (auto simp: validate_processor_configuration_def)
    next
      case (Inr connections_map)
      with a False
      have v: "validate_from cfg ev connections_map 0 (procs s) (s\<lparr>inspected := False\<rparr>) = (s', r)"
        by (simp add: validate_processor_configuration_def)
      from validate_from_sandbox [OF v assms] a show ?thesis by simp
    qed
  qed
qed

theorem sandbox_left_clean_witness:
  "validate_processor_configuration with_oracle failing_env [scenario_connection]
      (initial_state [scenario_processor, scenario_processor])
     = (fst (validate_processor_configuration with_oracle failing_env [scenario_connection]
               (initial_state [scenario_processor, scenario_processor])), None)
   \<and> posts (fst (validate_processor_configuration with_oracle failing_env [scenario_connection]
                    (initial_state [scenario_processor, scenario_processor]))) = 8
   \<and> sandbox (fst (validate_processor_configuration with_oracle failing_env [scenario_connection]
                      (initial_state [scenario_processor, scenario_processor]))) = []"
proof -
  let ?v = "validate_processor_configuration with_oracle failing_env [scenario_connection]
              (initial_state [scenario_processor, scenario_processor])"
  have d: "\<forall>n. delete_ok failing_env n" by (simp add: failing_env_def always_def)
  have r: "snd ?v = None" by code_simp
  then have e: "?v = (fst ?v, None)" by (metis prod.collapse)
  have p: "posts (fst ?v) = 8" by code_simp
  from sandbox_left_clean [OF d, of with_oracle Map.empty 0 "[]" "[]" "[]" 0
      "initial_state [scenario_processor, scenario_processor]" "[scenario_connection]"] e
  have "sandbox (fst ?v) = sandbox (initial_state [scenario_processor, scenario_processor])"
    by blast
  then have "sandbox (fst ?v) = []" by (simp add: initial_state_def)
  with e p show ?thesis by simp
qed

text \<open>
  The claim as first stated fails when an exception is raised while the created instance
  is inspected: the plan's \<^verbatim>\<open>auto_terminated_relationships\<close> is a list that holds a list,
  line 335 raises \<^verbatim>\<open>TypeError\<close>, no deletion request is sent and the instance stays in
  the runtime.
\<close>

theorem sandbox_leak_counterexample:
  "validate_processor_configuration no_oracle scenario_env []
     (initial_state [scenario_processor\<lparr>auto_terminated_relationships := JList [JList []]\<rparr>])
   = (\<lparr>procs = [scenario_processor\<lparr>auto_terminated_relationships := JList [JList []]\<rparr>],
       errors = [], changes_made = False, tick = 1, sandbox = [''instance-1''],
       sent = [Post \<lparr>pl_type = ''org.apache.nifi.processors.standard.RouteOnAttribute'',
                      pl_name = ''VALIDATION-Route'', pl_x = 0, pl_properties = [],
                      pl_strategy = None, pl_period = None, pl_tasks = None\<rparr>],
       inspected = True\<rparr>, Some TypeError)"
  by code_simp

section \<open>Properties of the retry budget\<close>

lemma resolve_validation_config_fix:
  "resolve_validation_errors_with_llm cfg ev p es s = (Some fx, s') \<Longrightarrow>
     config_fix ev (tick s) = Some fx \<and> changes_made s' = changes_made s"
  by (auto simp: resolve_validation_errors_with_llm_def config_fix_def Let_def
      split: if_split_asm option.split_asm)

lemma resolve_scheduling_scheduling_fix:
  "resolve_scheduling_errors_with_llm cfg ev sc e s = (Some v, s') \<Longrightarrow> truthy v \<Longrightarrow>
     scheduling_fix ev (tick s) = Some v"
  by (auto simp: resolve_scheduling_errors_with_llm_def scheduling_fix_def Let_def
      split: if_split_asm option.split_asm)

lemma config_fix_applied:
  assumes "config_fix ev n = Some fx"
  shows "changes_made (apply_fixes index fx s)"
proof -
  from assms obtain raw where "parse_config_fix (loads ev) raw = Some fx"
    by (auto simp: config_fix_def split: option.split_asm)
  then have "get_truthy fx ''properties'' \<or> get_truthy fx ''auto_terminated_relationships''"
    by (simp add: parse_config_fix_Some)
  then have "map_of fx ''properties'' \<noteq> None \<or> map_of fx ''auto_terminated_relationships'' \<noteq> None"
    by (auto simp: get_truthy_def split: option.split_asm)
  then show ?thesis by (auto simp: apply_fixes_def Let_def split: option.splits)
qed

lemma inspect_created_retry:
  assumes "inspect_created cfg ev cm index p_name p_id retry_count p_properties pd s = (s', Continue)"
  shows "config_fix ev (Suc (tick s)) \<noteq> None \<and> changes_made s'"
proof -
  obtain props ch where ac: "(case pd_descriptors pd of
                           None \<Rightarrow> (p_properties, False)
                         | Some descriptors \<Rightarrow> auto_correct descriptors p_properties False) = (props, ch)"
    by (cases "(case pd_descriptors pd of
                           None \<Rightarrow> (p_properties, False)
                         | Some descriptors \<Rightarrow> auto_correct descriptors p_properties False)") auto
  from assms ac obtain fx s3 s4 pc es where
    r: "resolve_validation_errors_with_llm cfg ev pc es s3 = (Some fx, s4)"
    and t3: "tick s3 = Suc (tick s)"
    and s': "s' = apply_fixes index fx s4"
    by (auto simp: inspect_created_def Let_def delete_instance_def
        split: if_split_asm option.split_asm prod.split_asm sum.split_asm)
  from resolve_validation_config_fix [OF r] t3 have c: "config_fix ev (Suc (tick s)) = Some fx"
    by simp
  from config_fix_applied [OF c] s' c show ?thesis by simp
qed

lemma attempt_retry:
  assumes "attempt cfg ev cm index p_name p_type p_id retry_count s = (s', Continue)"
  shows "changes_made s'
       \<and> ((\<exists>status error_text. post ev (tick s) = Rejected status error_text
              \<and> scheduling_fix ev (Suc (tick s)) \<noteq> None)
          \<or> (\<exists>pd. post ev (tick s) = Created pd
              \<and> config_fix ev (Suc (Suc (tick s))) \<noteq> None))"
proof -
  from assms obtain p_properties sched where pp: "properties (procs s ! index) = JObj p_properties"
    and sc: "scheduling (procs s ! index) = JObj sched"
    by (auto simp: attempt_def Let_def split: json.split_asm)
  show ?thesis
  proof (cases "post ev (tick s)")
    case (RequestException e)
    with assms pp sc show ?thesis by (auto simp: attempt_def Let_def)
  next
    case (Rejected status error_text)
    with assms pp sc obtain v s1 s2 where
      r: "resolve_scheduling_errors_with_llm cfg ev (JObj sched) error_text s1 = (Some v, s2)"
      and t1: "tick s1 = Suc (tick s)" and tv: "truthy v" and c: "changes_made s'"
      by (auto simp: attempt_def Let_def split: if_split_asm option.split_asm prod.split_asm)
    from resolve_scheduling_scheduling_fix [OF r tv] t1 Rejected c show ?thesis by simp
  next
    case (Created pd)
    with assms pp sc obtain s1 where
      i: "inspect_created cfg ev cm index p_name p_id retry_count p_properties pd s1 = (s', Continue)"
      and t1: "tick s1 = Suc (tick s)"
      by (auto simp: attempt_def Let_def)
    from inspect_created_retry [OF i] t1 Created show ?thesis by simp
  qed
qed

lemma attempts_count:
  assumes "attempts cfg ev cm index p_name p_type p_id retry_count s = (s', r)"
  shows "posts s' \<le> posts s + fixes_applied cfg ev cm index p_name p_type p_id retry_count s + 1
    \<and> (int retry_count < max_attempts cfg \<and> r \<noteq> Some AttributeError
          \<longrightarrow> posts s' = posts s + fixes_applied cfg ev cm index p_name p_type p_id retry_count s + 1)
    \<and> fixes_applied cfg ev cm index p_name p_type p_id retry_count s
         \<le> nat (max_retries cfg - int retry_count)
    \<and> (\<not> gemini_api_key cfg \<longrightarrow> fixes_applied cfg ev cm index p_name p_type p_id retry_count s = 0)"
  using assms
proof (induction cfg ev cm index p_name p_type p_id retry_count s rule: attempts.induct)
  case (1 cfg ev cm index p_name p_type p_id retry_count s)
  show ?case
  proof (cases "int retry_count < max_attempts cfg")
    case False
    with "1.prems" show ?thesis
      by (simp add: attempts.simps [of _ _ _ _ _ _ _ retry_count]
            fixes_applied.simps [of _ _ _ _ _ _ _ retry_count])
  next
    case True
    obtain s1 out where a: "attempt cfg ev cm index p_name p_type p_id retry_count s = (s1, out)"
      by (cases "attempt cfg ev cm index p_name p_type p_id retry_count s") auto
    note f = attempt_frame [OF a]
    show ?thesis
    proof (cases out)
      case Break
      with a True "1.prems" have "s' = s1" "r = None"
        and "fixes_applied cfg ev cm index p_name p_type p_id retry_count s = 0"
        by (simp_all add: attempts.simps [of _ _ _ _ _ _ _ retry_count]
              fixes_applied.simps [of _ _ _ _ _ _ _ retry_count])
      with f Break True show ?thesis by auto
    next
      case (Raise x)
      with a True "1.prems" have "s' = s1" "r = Some x"
        and "fixes_applied cfg ev cm index p_name p_type p_id retry_count s = 0"
        by (simp_all add: attempts.simps [of _ _ _ _ _ _ _ retry_count]
              fixes_applied.simps [of _ _ _ _ _ _ _ retry_count])
      with f Raise True show ?thesis by auto
    next
      case Continue
      with a True "1.prems"
      have rec: "attempts cfg ev cm index p_name p_type p_id (Suc retry_count) s1 = (s', r)"
        and fa: "fixes_applied cfg ev cm index p_name p_type p_id retry_count s
                   = Suc (fixes_applied cfg ev cm index p_name p_type p_id (Suc retry_count) s1)"
        by (simp_all add: attempts.simps [of _ _ _ _ _ _ _ retry_count]
              fixes_applied.simps [of _ _ _ _ _ _ _ retry_count])
      note ih = "1.IH" [OF True a [symmetric] _ rec]
      from f Continue have k: "gemini_api_key cfg" and p: "posts s1 = Suc (posts s)"
        and m: "int retry_count < max_retries cfg" by auto
      from k m have n: "int (Suc retry_count) < max_attempts cfg" by (simp add: max_attempts_def)
      from ih Continue k p m n fa show ?thesis by auto
    qed
  qed
qed

text \<open>
  C3, as amended.  For every processor the engine makes at most \<open>max_retries + 1\<close>
  creation attempts when an API key for the oracle is configured and at most one when
  none is; in no case more.  Without a key exactly one creation request is sent (unless
  \<^verbatim>\<open>AttributeError\<close> is raised before it).  The number of creation requests is one
  more than the number of fixes of the oracle that were applied for the processor (one
  less when the last attempt ends with \<^verbatim>\<open>AttributeError\<close> before its request), and at
  most \<open>max_retries\<close> fixes are applied: so \<open>max_retries + 1\<close> attempts are made exactly
  when a fix is applied after each of the first \<open>max_retries\<close> attempts.  An attempt is
  followed by another only when the API key is configured, fewer than \<open>max_retries\<close>
  fixes have been applied, and the oracle answered that attempt with a fix (a scheduling
  fix after a rejected creation, a configuration fix after a created instance), which
  has been written into the plan; the loop then goes on with the next retry count.  When
  the oracle's answers to an attempt give no fix, that attempt is the last.
\<close>

theorem attempt_budget:
  assumes "attempts cfg ev cm index p_name p_type p_id retry_count s = (s', r)"
  shows "(gemini_api_key cfg \<longrightarrow> posts s' \<le> posts s + nat (max_retries cfg + 1 - int retry_count))
       \<and> (\<not> gemini_api_key cfg \<longrightarrow> posts s' \<le> posts s + 1
             \<and> (retry_count = 0 \<and> r \<noteq> Some AttributeError \<longrightarrow> posts s' = posts s + 1))
       \<and> posts s' \<le> posts s + fixes_applied cfg ev cm index p_name p_type p_id retry_count s + 1
       \<and> (int retry_count < max_attempts cfg \<and> r \<noteq> Some AttributeError \<longrightarrow>
             posts s' = posts s + fixes_applied cfg ev cm index p_name p_type p_id retry_count s + 1)
       \<and> fixes_applied cfg ev cm index p_name p_type p_id retry_count s
            \<le> nat (max_retries cfg - int retry_count)
       \<and> (\<forall>s1. attempt cfg ev cm index p_name p_type p_id retry_count s = (s1, Continue)
                \<and> int retry_count < max_attempts cfg \<longrightarrow>
             gemini_api_key cfg \<and> int retry_count < max_retries cfg \<and> changes_made s1
             \<and> ((\<exists>status error_text. post ev (tick s) = Rejected status error_text
                    \<and> scheduling_fix ev (Suc (tick s)) \<noteq> None)
                \<or> (\<exists>pd. post ev (tick s) = Created pd
                    \<and> config_fix ev (Suc (Suc (tick s))) \<noteq> None))
             \<and> fixes_applied cfg ev cm index p_name p_type p_id retry_count s
                  = Suc (fixes_applied cfg ev cm index p_name p_type p_id (Suc retry_count) s1)
             \<and> attempts cfg ev cm index p_name p_type p_id (Suc retry_count) s1 = (s', r))
       \<and> (scheduling_fix ev (Suc (tick s)) = None \<and> config_fix ev (Suc (Suc (tick s))) = None \<longrightarrow>
             fixes_applied cfg ev cm index p_name p_type p_id retry_count s = 0
             \<and> posts s' \<le> posts s + 1)
       \<and> posts s' + asks s \<le> posts s + asks s' + 1"
proof -
  note c = attempts_count [OF assms]
  note f = attempts_frame [OF assms]
  have 1: "gemini_api_key cfg \<longrightarrow> posts s' \<le> posts s + nat (max_retries cfg + 1 - int retry_count)"
    using f by (auto simp: max_attempts_def)
  have 2: "\<not> gemini_api_key cfg \<longrightarrow> posts s' \<le> posts s + 1
             \<and> (retry_count = 0 \<and> r \<noteq> Some AttributeError \<longrightarrow> posts s' = posts s + 1)"
    using f by (auto simp: max_attempts_def)
  have 6: "\<forall>s1. attempt cfg ev cm index p_name p_type p_id retry_count s = (s1, Continue)
                \<and> int retry_count < max_attempts cfg \<longrightarrow>
             gemini_api_key cfg \<and> int retry_count < max_retries cfg \<and> changes_made s1
             \<and> ((\<exists>status error_text. post ev (tick s) = Rejected status error_text
                    \<and> scheduling_fix ev (Suc (tick s)) \<noteq> None)
                \<or> (\<exists>pd. post ev (tick s) = Created pd
                    \<and> config_fix ev (Suc (Suc (tick s))) \<noteq> None))
             \<and> fixes_applied cfg ev cm index p_name p_type p_id retry_count s
                  = Suc (fixes_applied cfg ev cm index p_name p_type p_id (Suc retry_count) s1)
             \<and> attempts cfg ev cm index p_name p_type p_id (Suc retry_count) s1 = (s', r)"
  proof (intro allI impI)
    fix s1
    assume h: "attempt cfg ev cm index p_name p_type p_id retry_count s = (s1, Continue)
                \<and> int retry_count < max_attempts cfg"
    then have a: "attempt cfg ev cm index p_name p_type p_id retry_count s = (s1, Continue)"
      and t: "int retry_count < max_attempts cfg" by simp_all
    from a t assms
    have rec: "attempts cfg ev cm index p_name p_type p_id (Suc retry_count) s1 = (s', r)"
      and fa: "fixes_applied cfg ev cm index p_name p_type p_id retry_count s
                   = Suc (fixes_applied cfg ev cm index p_name p_type p_id (Suc retry_count) s1)"
      by (simp_all add: attempts.simps [of _ _ _ _ _ _ _ retry_count]
            fixes_applied.simps [of _ _ _ _ _ _ _ retry_count])
    from attempt_continue [OF a] attempt_retry [OF a] rec fa
    show "gemini_api_key cfg \<and> int retry_count < max_retries cfg \<and> changes_made s1
             \<and> ((\<exists>status error_text. post ev (tick s) = Rejected status error_text
                    \<and> scheduling_fix ev (Suc (tick s)) \<noteq> None)
                \<or> (\<exists>pd. post ev (tick s) = Created pd
                    \<and> config_fix ev (Suc (Suc (tick s))) \<noteq> None))
             \<and> fixes_applied cfg ev cm index p_name p_type p_id retry_count s
                  = Suc (fixes_applied cfg ev cm index p_name p_type p_id (Suc retry_count) s1)
             \<and> attempts cfg ev cm index p_name p_type p_id (Suc retry_count) s1 = (s', r)"
      by blast
  qed
  have 7: "scheduling_fix ev (Suc (tick s)) = None \<and> config_fix ev (Suc (Suc (tick s))) = None \<longrightarrow>
             fixes_applied cfg ev cm index p_name p_type p_id retry_count s = 0
             \<and> posts s' \<le> posts s + 1"
  proof
    assume n: "scheduling_fix ev (Suc (tick s)) = None \<and> config_fix ev (Suc (Suc (tick s))) = None"
    have z: "fixes_applied cfg ev cm index p_name p_type p_id retry_count s = 0"
    proof (cases "int retry_count < max_attempts cfg")
      case False
      then show ?thesis by (simp add: fixes_applied.simps [of _ _ _ _ _ _ _ retry_count])
    next
      case True
      obtain s1 out where a: "attempt cfg ev cm index p_name p_type p_id retry_count s = (s1, out)"
        by (cases "attempt cfg ev cm index p_name p_type p_id retry_count s") auto
      have "out \<noteq> Continue"
      proof
        assume "out = Continue"
        with a attempt_retry [of cfg ev cm index p_name p_type p_id retry_count s s1] n
        show False by auto
      qed
      with a True show ?thesis
        by (cases out) (simp_all add: fixes_applied.simps [of _ _ _ _ _ _ _ retry_count])
    qed
    with c show "fixes_applied cfg ev cm index p_name p_type p_id retry_count s = 0
             \<and> posts s' \<le> posts s + 1" by simp
  qed
  have 8: "posts s' + asks s \<le> posts s + asks s' + 1" using f by simp
  from c 1 2 6 7 8 show ?thesis by blast
qed

theorem attempt_budget_witness:
  "attempts with_oracle failing_env Map.empty 0 ''Route'' ''RouteOnAttribute'' ''p1'' 0
      (initial_state [scenario_processor])
     = (fst (attempts with_oracle failing_env Map.empty 0 ''Route'' ''RouteOnAttribute'' ''p1'' 0
               (initial_state [scenario_processor])), None)
   \<and> gemini_api_key with_oracle \<and> max_retries with_oracle = 3
   \<and> config_fix failing_env 2 = Some config_object
   \<and> fixes_applied with_oracle failing_env Map.empty 0 ''Route'' ''RouteOnAttribute'' ''p1'' 0
        (initial_state [scenario_processor]) = 3
   \<and> posts (fst (attempts with_oracle failing_env Map.empty 0 ''Route'' ''RouteOnAttribute'' ''p1'' 0
                    (initial_state [scenario_processor]))) = 4
   \<and> asks (fst (attempts with_oracle failing_env Map.empty 0 ''Route'' ''RouteOnAttribute'' ''p1'' 0
                    (initial_state [scenario_processor]))) = 3
   \<and> posts (fst (attempts no_oracle failing_env Map.empty 0 ''Route'' ''RouteOnAttribute'' ''p1'' 0
                    (initial_state [scenario_processor]))) = 1
   \<and> scheduling_fix (failing_env\<lparr>llm := always None\<rparr>) 1 = None
   \<and> config_fix (failing_env\<lparr>llm := always None\<rparr>) 2 = None
   \<and> fixes_applied with_oracle (failing_env\<lparr>llm := always None\<rparr>) Map.empty 0 ''Route''
        ''RouteOnAttribute'' ''p1'' 0 (initial_state [scenario_processor]) = 0
   \<and> posts (fst (attempts with_oracle (failing_env\<lparr>llm := always None\<rparr>) Map.empty 0 ''Route''
                    ''RouteOnAttribute'' ''p1'' 0 (initial_state [scenario_processor]))) = 1"
proof -
  let ?a = "attempts with_oracle failing_env Map.empty 0 ''Route'' ''RouteOnAttribute'' ''p1'' 0
              (initial_state [scenario_processor])"
  let ?b = "attempts no_oracle failing_env Map.empty 0 ''Route'' ''RouteOnAttribute'' ''p1'' 0
              (initial_state [scenario_processor])"
  let ?c = "attempts with_oracle (failing_env\<lparr>llm := always None\<rparr>) Map.empty 0 ''Route''
              ''RouteOnAttribute'' ''p1'' 0 (initial_state [scenario_processor])"
  have r: "snd ?a = None" by code_simp
  then have e: "?a = (fst ?a, None)" by (metis prod.collapse)
  have q: "snd ?b = None" by code_simp
  then have f: "?b = (fst ?b, None)" by (metis prod.collapse)
  have u: "snd ?c = None" by code_simp
  then have g: "?c = (fst ?c, None)" by (metis prod.collapse)
  have k: "gemini_api_key with_oracle" "max_retries with_oracle = 3" "\<not> gemini_api_key no_oracle"
    "int 0 < max_attempts with_oracle"
    by (simp_all add: with_oracle_def no_oracle_def max_attempts_def)
  have z: "posts (initial_state [scenario_processor]) = 0"
    and t: "tick (initial_state [scenario_processor]) = 0"
    by (simp_all add: initial_state_def posts_def)
  have c: "config_fix failing_env 2 = Some config_object" by code_simp
  have n: "fixes_applied with_oracle failing_env Map.empty 0 ''Route'' ''RouteOnAttribute'' ''p1'' 0
        (initial_state [scenario_processor]) = 3" by code_simp
  from attempt_budget [OF e] k z n have p: "posts (fst ?a) = 4" by simp
  have a: "asks (fst ?a) = 3" by code_simp
  from attempt_budget [OF f] k z have b: "posts (fst ?b) = 1" by simp
  have x: "scheduling_fix (failing_env\<lparr>llm := always None\<rparr>) 1 = None"
    and y: "config_fix (failing_env\<lparr>llm := always None\<rparr>) 2 = None"
    by (simp_all add: scheduling_fix_def config_fix_def always_def)
  from attempt_budget [OF g] k z t x y
  have m: "fixes_applied with_oracle (failing_env\<lparr>llm := always None\<rparr>) Map.empty 0 ''Route''
        ''RouteOnAttribute'' ''p1'' 0 (initial_state [scenario_processor]) = 0"
    and d: "posts (fst ?c) = 1" by (simp_all add: numeral_eq_Suc)
  from e k c n p a b x y m d show ?thesis by simp
qed

text \<open>
  The claim as first stated fails when the oracle gives no fix: the API key is
  configured with three retries, the runtime reports a configuration error at every
  attempt, the oracle call fails, and the processor is attempted once, not four times.
\<close>

theorem attempt_budget_counterexample:
  "gemini_api_key with_oracle \<and> max_retries with_oracle = 3
   \<and> pd_validation_errors (scenario_instance
         \<lparr>pd_validation_errors := [''Directory is invalid because it is required'']\<rparr>) \<noteq> []
   \<and> snd (validate_processor_configuration with_oracle (failing_env\<lparr>llm := always None\<rparr>) []
             (initial_state [scenario_processor])) = None
   \<and> posts (fst (validate_processor_configuration with_oracle (failing_env\<lparr>llm := always None\<rparr>) []
                    (initial_state [scenario_processor]))) = 1
   \<and> errors (fst (validate_processor_configuration with_oracle (failing_env\<lparr>llm := always None\<rparr>) []
                     (initial_state [scenario_processor])))
       = [proc_prefix 0 ''Route'' @ '' Config Error: Directory is invalid because it is required'']"
  by code_simp

section \<open>The check of unsupported dynamic properties\<close>

text \<open>
  C9 does not hold of the code.  The processor's type does not support dynamic
  properties and the plan holds the key \<open>Bogus\<close>, which is no descriptor.  As the first
  processor of a run, its inspection raises \<^verbatim>\<open>UnboundLocalError\<close> at line 318: the run
  ends there, nothing is reported and the instance stays in the sandbox.  As the second
  processor, after one whose inspection went through, the message is appended to a list
  that line 323 discards: the run ends without any error and without any oracle call.
  A first processor whose type supports dynamic properties raises at line 315.
\<close>

theorem dynamic_property_not_reported:
  "validate_processor_configuration no_oracle
     (described_env ''Compression Format'' compression_descriptor) []
     (initial_state [scenario_processor\<lparr>properties := JObj [(''Bogus'', JStr ''x'')]\<rparr>])
   = (\<lparr>procs = [scenario_processor\<lparr>properties := JObj [(''Bogus'', JStr ''x'')]\<rparr>],
       errors = [], changes_made = False, tick = 1, sandbox = [''instance-1''],
       sent = [Post \<lparr>pl_type = ''org.apache.nifi.processors.standard.RouteOnAttribute'',
                      pl_name = ''VALIDATION-Route'', pl_x = 0,
                      pl_properties = [(''Bogus'', JStr ''x'')],
                      pl_strategy = None, pl_period = None, pl_tasks = None\<rparr>],
       inspected = False\<rparr>, Some (UnboundLocalError ''filtered_errors''))
   \<and> validate_processor_configuration no_oracle
       (described_env ''Compression Format'' compression_descriptor) []
       (initial_state [scenario_processor,
                       scenario_processor\<lparr>properties := JObj [(''Bogus'', JStr ''x'')]\<rparr>])
     = (\<lparr>procs = [scenario_processor,
                  scenario_processor\<lparr>properties := JObj [(''Bogus'', JStr ''x'')]\<rparr>],
         errors = [], changes_made = False, tick = 4, sandbox = [],
         sent = [Post \<lparr>pl_type = ''org.apache.nifi.processors.standard.RouteOnAttribute'',
                        pl_name = ''VALIDATION-Route'', pl_x = 0, pl_properties = [],
                        pl_strategy = None, pl_period = None, pl_tasks = None\<rparr>,
                 Delete ''instance-1'' 1 None,
                 Post \<lparr>pl_type = ''org.apache.nifi.processors.standard.RouteOnAttribute'',
                        pl_name = ''VALIDATION-Route'', pl_x = 500,
                        pl_properties = [(''Bogus'', JStr ''x'')],
                        pl_strategy = None, pl_period = None, pl_tasks = None\<rparr>,
                 Delete ''instance-1'' 1 None],
         inspected = True\<rparr>, None)
   \<and> snd (validate_processor_configuration no_oracle
            (scenario_env\<lparr>post := always (Created (scenario_instance\<lparr>pd_supports_dynamic := True\<rparr>))\<rparr>)
            [] (initial_state [scenario_processor]))
     = Some (UnboundLocalError ''current_props_dict'')"
  by code_simp

section \<open>Properties of the structural checker\<close>

text \<open>The errors of one entry that is an object: one per missing or ill-typed field.\<close>

lemma check_fields_object:
  "check_fields prefix reqs (JObj c) =
     Inr (concat (map (\<lambda>(field, ty, tname).
                          case map_of c field of
                            None \<Rightarrow> [missing_msg prefix field]
                          | Some v \<Rightarrow> if \<not> isinstance v ty
                                      then [wrong_type_msg prefix field tname v] else []) reqs))"
proof (induction reqs)
  case Nil
  then show ?case by simp
next
  case (Cons r reqs)
  obtain field ty tname where r: "r = (field, ty, tname)" by (cases r) auto
  have k: "(field \<in> fst ` set c) = (map_of c field \<noteq> None)"
    by (simp add: map_of_eq_None_iff)
  show ?case
    using Cons.IH unfolding r by (auto simp: ebind_def k split: option.splits)
qed

lemma check_entries_nth:
  "check_entries kind reqs index entries = Inr es \<Longrightarrow> i < length entries \<Longrightarrow>
     \<exists>es_i. check_fields (kind @ ''['' @ show_nat (index + i) @ '']'') reqs (entries ! i) = Inr es_i
             \<and> set es_i \<subseteq> set es"
proof (induction entries arbitrary: index i es)
  case Nil
  then show ?case by simp
next
  case (Cons entry entries)
  from Cons.prems(1) obtain e1 e2 where
    a: "check_fields (kind @ ''['' @ show_nat index @ '']'') reqs entry = Inr e1"
    and b: "check_entries kind reqs (Suc index) entries = Inr e2" and es: "es = e1 @ e2"
    by (auto simp: ebind_def split: sum.split_asm)
  show ?case
  proof (cases i)
    case 0
    with a es show ?thesis by auto
  next
    case (Suc j)
    with Cons.prems(2) have "j < length entries" by simp
    from Cons.IH [OF b this] Suc es show ?thesis by auto
  qed
qed

lemma validate_structure_connections:
  assumes "validate_structure data = Inr es"
    and "py_getitem data ''plan_details'' = Inr (JObj details)"
    and "map_of details ''connections'' = Some (JList conns)"
  shows "\<exists>e3. check_entries ''Connection'' required_connection_fields 0 conns = Inr e3
            \<and> set e3 \<subseteq> set es"
proof -
  from assms(2) obtain kvs where d: "data = JObj kvs"
    and m: "map_of kvs ''plan_details'' = Some (JObj details)"
    by (cases data) (auto split: option.split_asm)
  from m have ne: "kvs \<noteq> []" by auto
  from m have i: "''plan_details'' \<in> fst ` set kvs"
    by (metis map_of_eq_None_iff option.distinct(1))
  from assms(1) d ne i m assms(3) show ?thesis
    by (auto simp: validate_structure_def ebind_def check_connections_def split: sum.split_asm)
qed


text \<open>
  C2, as amended.  For every plan on which the structural checker returns, and every
  connection of it that is an object: when one of \<open>from_id\<close>, \<open>to_id\<close>,
  \<open>relationships\<close> is missing the checker reports it as missing, and when it holds a
  value of the wrong type (string, string, array) the checker reports the type mismatch.
  A connection whose \<open>from_id\<close> and \<open>to_id\<close> are strings and whose \<open>relationships\<close>
  is a list yields no error, whatever the two ids are: they are not compared with the
  processors' ids.
\<close>

theorem connection_fields_checked:
  assumes "validate_structure data = Inr es"
    and "py_getitem data ''plan_details'' = Inr (JObj details)"
    and "map_of details ''connections'' = Some (JList conns)"
    and "i < length conns" and "conns ! i = JObj c"
  shows "(\<forall>field ty tname. (field, ty, tname) \<in> set required_connection_fields \<longrightarrow>
            (map_of c field = None \<longrightarrow>
               missing_msg (''Connection['' @ show_nat i @ '']'') field \<in> set es)
            \<and> (\<forall>v. map_of c field = Some v \<and> \<not> isinstance v ty \<longrightarrow>
                   wrong_type_msg (''Connection['' @ show_nat i @ '']'') field tname v \<in> set es))
       \<and> ((\<exists>f t r. map_of c ''from_id'' = Some (JStr f) \<and> map_of c ''to_id'' = Some (JStr t)
                    \<and> map_of c ''relationships'' = Some (JList r)) \<longrightarrow>
            check_fields (''Connection['' @ show_nat i @ '']'') required_connection_fields (JObj c)
              = Inr [])"
proof -
  let ?prefix = "''Connection['' @ show_nat i @ '']''"
  let ?errs = "\<lambda>(field, ty, tname).
                 case map_of c field of
                   None \<Rightarrow> [missing_msg ?prefix field]
                 | Some v \<Rightarrow> if \<not> isinstance v ty
                             then [wrong_type_msg ?prefix field tname v] else []"
  from validate_structure_connections [OF assms(1,2,3)] obtain e3 where
    e3: "check_entries ''Connection'' required_connection_fields 0 conns = Inr e3"
    and s3: "set e3 \<subseteq> set es" by blast
  from check_entries_nth [OF e3 assms(4)] assms(5) obtain es_i where
    ei: "check_fields ?prefix required_connection_fields (JObj c) = Inr es_i"
    and si: "set es_i \<subseteq> set e3" by auto
  from ei have es_i: "es_i = concat (map ?errs required_connection_fields)"
    unfolding check_fields_object sum.inject by (rule sym)
  have a: "\<And>field ty tname. (field, ty, tname) \<in> set required_connection_fields \<Longrightarrow>
              set (?errs (field, ty, tname)) \<subseteq> set es"
  proof -
    fix field ty tname
    assume "(field, ty, tname) \<in> set required_connection_fields"
    then have "set (?errs (field, ty, tname)) \<subseteq> set es_i"
      unfolding es_i by (metis (no_types, lifting) UN_I image_eqI set_concat set_map subsetI)
    with si s3 show "set (?errs (field, ty, tname)) \<subseteq> set es" by blast
  qed
  show ?thesis
  proof (intro conjI allI impI)
    fix field ty tname
    assume r: "(field, ty, tname) \<in> set required_connection_fields"
    assume "map_of c field = None"
    with a [OF r] show "missing_msg ?prefix field \<in> set es" by simp
  next
    fix field ty tname v
    assume r: "(field, ty, tname) \<in> set required_connection_fields"
    assume "map_of c field = Some v \<and> \<not> isinstance v ty"
    with a [OF r] show "wrong_type_msg ?prefix field tname v \<in> set es" by simp
  next
    assume "\<exists>f t r. map_of c ''from_id'' = Some (JStr f) \<and> map_of c ''to_id'' = Some (JStr t)
                    \<and> map_of c ''relationships'' = Some (JList r)"
    then show "check_fields ?prefix required_connection_fields (JObj c) = Inr []"
      by (auto simp: check_fields_object required_connection_fields_def)
  qed
qed

theorem connection_fields_checked_witness:
  "validate_structure incomplete_plan
     = Inr [missing_msg (''Connection['' @ show_nat 0 @ '']'') ''to_id'',
            wrong_type_msg (''Connection['' @ show_nat 0 @ '']'') ''relationships'' ''array'' JNull]
   \<and> plan_entries incomplete_plan ''connections''
       = [JObj [(''from_id'', JStr ''p1''), (''relationships'', JNull)]]
   \<and> missing_msg (''Connection['' @ show_nat 0 @ '']'') ''to_id''
       \<in> set [missing_msg (''Connection['' @ show_nat 0 @ '']'') ''to_id'',
               wrong_type_msg (''Connection['' @ show_nat 0 @ '']'') ''relationships'' ''array'' JNull]"
proof -
  let ?es = "[missing_msg (''Connection['' @ show_nat 0 @ '']'') ''to_id'',
              wrong_type_msg (''Connection['' @ show_nat 0 @ '']'') ''relationships'' ''array'' JNull]"
  let ?c = "[(''from_id'', JStr ''p1''), (''relationships'', JNull)]"
  let ?details = "[(''processors'', JList []), (''connections'', JList [JObj ?c])]"
  have v: "validate_structure incomplete_plan = Inr ?es" by code_simp
  have g: "py_getitem incomplete_plan ''plan_details'' = Inr (JObj ?details)"
    by (simp add: incomplete_plan_def)
  have m: "map_of ?details ''connections'' = Some (JList [JObj ?c])" by simp
  have l: "0 < length [JObj ?c]" and n: "[JObj ?c] ! 0 = JObj ?c" by simp_all
  have r: "(''to_id'', PyStr, ''string'') \<in> set required_connection_fields"
    by (simp add: required_connection_fields_def)
  have e: "plan_entries incomplete_plan ''connections'' = [JObj ?c]" by code_simp
  note t = connection_fields_checked [OF v g m l n, THEN conjunct1, rule_format, OF r]
  have k: "map_of ?c ''to_id'' = None" by simp
  from t k have "missing_msg (''Connection['' @ show_nat 0 @ '']'') ''to_id'' \<in> set ?es"
    by blast
  with v e show ?thesis by simp
qed

text \<open>
  The claim as first stated fails: the only connection of the plan goes to \<open>ghost\<close>, which
  is the id of no processor, and the structural checker reports nothing.
\<close>

theorem dangling_connection_counterexample:
  "member_strs ''to_id'' (plan_entries dangling_plan ''connections'') = [''ghost'']
   \<and> member_strs ''id'' (plan_entries dangling_plan ''processors'') = [''p1'']
   \<and> validate_structure dangling_plan = Inr []"
  by code_simp

section \<open>Properties of the run\<close>

lemma dict_set_same: "map_of kvs k = Some v \<Longrightarrow> dict_set kvs k v = kvs"
  by (induction kvs) (auto split: if_split_asm)

lemma map_of_dict_set_other: "k' \<noteq> k \<Longrightarrow> map_of (dict_set kvs k v) k' = map_of kvs k'"
  by (simp add: map_of_dict_set)

lemma resolve_type_raw_unchanged:
  "resolve_type_raw catalog index processor = Inr (processor', es, ch) \<Longrightarrow>
     ch \<or> processor' = processor"
  by (auto simp: resolve_type_raw_def ebind_def Let_def split: sum.split_asm if_split_asm)

lemma resolve_types_raw_unchanged:
  "resolve_types_raw catalog index items = Inr (items', es, ch) \<Longrightarrow> ch \<or> items' = items"
proof (induction items arbitrary: index items' es ch)
  case Nil
  then show ?case by simp
next
  case (Cons p items)
  from Cons.prems obtain p' e1 c1 r' e2 c2 where
    a: "resolve_type_raw catalog index p = Inr (p', e1, c1)"
    and b: "resolve_types_raw catalog (Suc index) items = Inr (r', e2, c2)"
    and c: "items' = p' # r'" "ch = (c1 \<or> c2)"
    by (auto simp: ebind_def split: sum.split_asm prod.split_asm)
  from resolve_type_raw_unchanged [OF a] Cons.IH [OF b] c show ?case by auto
qed

lemma set_processors_same:
  "get_processors doc = Inr (JList items) \<Longrightarrow> set_processors doc items = doc"
  by (auto simp: get_processors_def set_processors_def ebind_def dict_set_same
        split: json.splits option.splits sum.split_asm)

lemma set_processors_not_list:
  "get_processors doc = Inr v \<Longrightarrow> (\<forall>xs. v \<noteq> JList xs) \<Longrightarrow> set_processors doc items = doc"
  by (auto simp: get_processors_def set_processors_def ebind_def
        split: json.splits option.splits sum.split_asm)

lemma fetch_frame:
  "fetch_nifi_processor_types w st = (b, st') \<Longrightarrow>
     disk st' = disk st \<and> r_data st' = r_data st \<and> r_changes_made st' = r_changes_made st"
  by (auto simp: fetch_nifi_processor_types_def split: sum.split_asm)

lemma validate_processor_types_frame:
  assumes "validate_processor_types w st = Inr st'"
  shows "disk st' = disk st
    \<and> (r_changes_made st \<longrightarrow> r_data st' = r_data st \<or> r_changes_made st')
    \<and> (\<not> r_changes_made st' \<longrightarrow> r_data st' = r_data st)"
proof -
  obtain success st1 where f: "(if available_processor_types st = []
                                then fetch_nifi_processor_types w st else (True, st)) = (success, st1)"
    by (cases "(if available_processor_types st = []
                                then fetch_nifi_processor_types w st else (True, st))") auto
  then have f1: "disk st1 = disk st \<and> r_data st1 = r_data st \<and> r_changes_made st1 = r_changes_made st"
    by (auto split: if_split_asm dest: fetch_frame)
  show ?thesis
  proof (cases "has_processors (r_data st) = Inr True \<and> success")
    case False
    with assms f f1 show ?thesis
      by (auto simp: validate_processor_types_def ebind_def Let_def split: sum.split_asm if_split_asm)
  next
    case True
    with assms f obtain processors items items' es ch where
      g: "get_processors (r_data st1) = Inr processors"
      and i: "py_iter processors = Inr items"
      and r: "resolve_types_raw (available_processor_types st1) 0 items = Inr (items', es, ch)"
      and s': "st' = st1\<lparr>r_data := set_processors (r_data st1) items',
                          r_errors := r_errors st1 @ es, r_changes_made := ch\<rparr>"
      by (auto simp: validate_processor_types_def ebind_def Let_def
            split: sum.split_asm if_split_asm prod.split_asm)
    have "ch \<or> set_processors (r_data st1) items' = r_data st1"
    proof (cases "\<exists>xs. processors = JList xs")
      case True
      with i have "processors = JList items" by auto
      with g resolve_types_raw_unchanged [OF r] show ?thesis
        by (auto simp: set_processors_same)
    next
      case False
      with g show ?thesis by (simp add: set_processors_not_list)
    qed
    with s' f1 show ?thesis by auto
  qed
qed

lemma validate_controller_services_frame:
  "validate_controller_services st = Inr st' \<Longrightarrow>
     disk st' = disk st \<and> r_data st' = r_data st \<and> r_changes_made st' = r_changes_made st"
  by (auto simp: validate_controller_services_def ebind_def split: sum.split_asm if_split_asm)

lemma static_pass_frame:
  assumes "static_pass w st = Inr st'" and "\<not> r_changes_made st'"
  shows "disk st' = disk st \<and> r_data st' = r_data st"
proof -
  from assms(1) obtain es st1 where
    a: "validate_processor_types w (st\<lparr>r_errors := r_errors st @ es\<rparr>) = Inr st1"
    and b: "validate_controller_services st1 = Inr st'"
    by (auto simp: static_pass_def ebind_def split: sum.split_asm)
  from validate_processor_types_frame [OF a] validate_controller_services_frame [OF b] assms(2)
  show ?thesis by auto
qed

lemma static_pass_disk:
  assumes "static_pass w st = Inr st'"
  shows "disk st' = disk st"
proof -
  from assms(1) obtain es st1 where
    a: "validate_processor_types w (st\<lparr>r_errors := r_errors st @ es\<rparr>) = Inr st1"
    and b: "validate_controller_services st1 = Inr st'"
    by (auto simp: static_pass_def ebind_def split: sum.split_asm)
  from validate_processor_types_frame [OF a] validate_controller_services_frame [OF b]
  show ?thesis by auto
qed


text \<open>The sandbox pass sets the dirty flag whenever it writes into the plan.\<close>

lemma auto_correct_flag:
  "auto_correct ds props ch = (props', ch') \<Longrightarrow> (ch \<longrightarrow> ch') \<and> (\<not> ch' \<longrightarrow> props' = props)"
  by (induction ds props ch rule: auto_correct.induct)
     (auto split: option.split_asm if_split_asm)

lemma resolve_validation_changes:
  "resolve_validation_errors_with_llm cfg ev p es s = (r, s') \<Longrightarrow>
     changes_made s' = changes_made s"
  by (auto simp: resolve_validation_errors_with_llm_def Let_def split: if_split_asm option.split_asm)

lemma resolve_scheduling_changes:
  "resolve_scheduling_errors_with_llm cfg ev sc e s = (r, s') \<Longrightarrow>
     changes_made s' = changes_made s"
  by (auto simp: resolve_scheduling_errors_with_llm_def Let_def split: if_split_asm option.split_asm)

lemma get_truthy_present: "get_truthy fixes k \<Longrightarrow> map_of fixes k \<noteq> None"
  by (auto simp: get_truthy_def split: option.split_asm)

lemma apply_fixes_changes:
  "(changes_made s \<longrightarrow> changes_made (apply_fixes index fixes s))
   \<and> (map_of fixes ''properties'' \<noteq> None \<or> map_of fixes ''auto_terminated_relationships'' \<noteq> None
        \<longrightarrow> changes_made (apply_fixes index fixes s))"
  by (auto simp: apply_fixes_def Let_def split: option.splits)

lemma delete_instance_changes [simp]:
  "changes_made (delete_instance ev pd s) = changes_made s"
  by (simp add: delete_instance_def)

lemma inspect_created_dirty:
  assumes "inspect_created cfg ev cm index p_name p_id retry_count p_properties pd s = (s', out)"
    and "properties (procs s ! index) = JObj p_properties"
  shows "(changes_made s \<longrightarrow> changes_made s') \<and> (\<not> changes_made s' \<longrightarrow> procs s' = procs s)"
proof -
  obtain props ch where ac: "(case pd_descriptors pd of
                           None \<Rightarrow> (p_properties, False)
                         | Some descriptors \<Rightarrow> auto_correct descriptors p_properties False) = (props, ch)"
    by (cases "(case pd_descriptors pd of
                           None \<Rightarrow> (p_properties, False)
                         | Some descriptors \<Rightarrow> auto_correct descriptors p_properties False)") auto
  then have nc: "\<not> ch \<Longrightarrow> props = p_properties"
    by (auto split: option.split_asm dest: auto_correct_flag)
  let ?ps1 = "(procs s)[index := (procs s ! index)\<lparr>properties := JObj props\<rparr>]"
  have same: "\<not> ch \<Longrightarrow> ?ps1 = procs s"
  proof -
    assume "\<not> ch"
    with nc assms(2) have "(procs s ! index)\<lparr>properties := JObj props\<rparr> = procs s ! index"
      by simp
    then show ?thesis by simp
  qed
  show ?thesis
  proof (cases out)
    case Continue
    with assms(1) ac obtain fx s3 s4 pc es where
      r: "resolve_validation_errors_with_llm cfg ev pc es s3 = (Some fx, s4)"
      and s': "s' = apply_fixes index fx s4"
      by (auto simp: inspect_created_def Let_def
          split: if_split_asm option.split_asm prod.split_asm sum.split_asm)
    from resolve_validation_Some [OF r] have
      "map_of fx ''properties'' \<noteq> None \<or> map_of fx ''auto_terminated_relationships'' \<noteq> None"
      by (auto dest: get_truthy_present)
    with apply_fixes_changes [of s4 index fx] s' show ?thesis by blast
  next
    case Break
    with assms(1) ac have "procs s' = ?ps1" "changes_made s' = (changes_made s \<or> ch)"
      by (auto simp: inspect_created_def Let_def
          split: if_split_asm option.split_asm prod.split_asm sum.split_asm
          dest: resolve_validation_procs resolve_validation_changes)
    with same show ?thesis by auto
  next
    case (Raise e)
    with assms(1) ac have "procs s' = ?ps1" "changes_made s' = (changes_made s \<or> ch)"
      by (auto simp: inspect_created_def Let_def
          split: if_split_asm option.split_asm prod.split_asm sum.split_asm
          dest: resolve_validation_procs resolve_validation_changes)
    with same show ?thesis by auto
  qed
qed

lemma attempt_dirty:
  assumes "attempt cfg ev cm index p_name p_type p_id retry_count s = (s', out)"
  shows "(changes_made s \<longrightarrow> changes_made s') \<and> (\<not> changes_made s' \<longrightarrow> procs s' = procs s)"
proof (cases "\<exists>p_properties sched. properties (procs s ! index) = JObj p_properties
                  \<and> scheduling (procs s ! index) = JObj sched")
  case False
  with assms have "s' = s"
    by (auto simp: attempt_def Let_def split: json.split_asm)
  then show ?thesis by simp
next
  case True
  then obtain p_properties sched where pp: "properties (procs s ! index) = JObj p_properties"
    and sc: "scheduling (procs s ! index) = JObj sched" by blast
  show ?thesis
  proof (cases "post ev (tick s)")
    case (RequestException e)
    with assms pp sc show ?thesis by (auto simp: attempt_def Let_def)
  next
    case (Rejected status error_text)
    with assms pp sc show ?thesis
      by (auto simp: attempt_def Let_def
            split: if_split_asm option.split_asm prod.split_asm
            dest: resolve_scheduling_procs resolve_scheduling_changes)
  next
    case (Created pd)
    with assms pp sc obtain s1 where
      i: "inspect_created cfg ev cm index p_name p_id retry_count p_properties pd s1 = (s', out)"
      and p1: "procs s1 = procs s" and c1: "changes_made s1 = changes_made s"
      by (auto simp: attempt_def Let_def)
    from inspect_created_dirty [OF i] pp p1 c1 show ?thesis by simp
  qed
qed

lemma attempts_dirty:
  assumes "attempts cfg ev cm index p_name p_type p_id retry_count s = (s', r)"
  shows "(changes_made s \<longrightarrow> changes_made s') \<and> (\<not> changes_made s' \<longrightarrow> procs s' = procs s)"
  using assms
proof (induction cfg ev cm index p_name p_type p_id retry_count s rule: attempts.induct)
  case (1 cfg ev cm index p_name p_type p_id retry_count s)
  show ?case
  proof (cases "int retry_count < max_attempts cfg")
    case False
    with "1.prems" show ?thesis
      by (simp add: attempts.simps [of _ _ _ _ _ _ _ retry_count])
  next
    case True
    obtain s1 out where a: "attempt cfg ev cm index p_name p_type p_id retry_count s = (s1, out)"
      by (cases "attempt cfg ev cm index p_name p_type p_id retry_count s") auto
    note f = attempt_dirty [OF a]
    show ?thesis
    proof (cases out)
      case Break
      with a True "1.prems" have "s' = s1"
        by (simp add: attempts.simps [of _ _ _ _ _ _ _ retry_count])
      with f show ?thesis by simp
    next
      case (Raise x)
      with a True "1.prems" have "s' = s1"
        by (simp add: attempts.simps [of _ _ _ _ _ _ _ retry_count])
      with f show ?thesis by simp
    next
      case Continue
      with a True "1.prems"
      have rec: "attempts cfg ev cm index p_name p_type p_id (Suc retry_count) s1 = (s', r)"
        by (simp add: attempts.simps [of _ _ _ _ _ _ _ retry_count])
      from "1.IH" [OF True a [symmetric] _ rec] Continue f show ?thesis by auto
    qed
  qed
qed

lemma validate_from_dirty:
  "validate_from cfg ev cm index ps s = (s', r) \<Longrightarrow>
     (changes_made s \<longrightarrow> changes_made s') \<and> (\<not> changes_made s' \<longrightarrow> procs s' = procs s)"
proof (induction ps arbitrary: index s)
  case Nil
  then show ?case by simp
next
  case (Cons p ps)
  obtain s1 r1 where a: "attempts cfg ev cm index (proc_name p) (proc_type p) (proc_id p) 0 s = (s1, r1)"
    by (cases "attempts cfg ev cm index (proc_name p) (proc_type p) (proc_id p) 0 s") auto
  show ?case
  proof (cases r1)
    case None
    with a Cons.prems have v: "validate_from cfg ev cm (Suc index) ps s1 = (s', r)" by simp
    from attempts_dirty [OF a] Cons.IH [OF v] show ?thesis by auto
  next
    case (Some e)
    with a Cons.prems have "s' = s1" by simp
    with attempts_dirty [OF a] show ?thesis by simp
  qed
qed

lemma validate_processor_configuration_dirty:
  assumes "validate_processor_configuration cfg ev conns s = (s', r)"
  shows "(changes_made s \<longrightarrow> changes_made s') \<and> (\<not> changes_made s' \<longrightarrow> procs s' = procs s)"
proof (cases "sandbox_pg_id cfg = []")
  case True
  with assms show ?thesis by (auto simp: validate_processor_configuration_def)
next
  case False
  show ?thesis
  proof (cases "build_connections_map conns Map.empty")
    case (Inl e)
    with assms False show ?thesis by (auto simp: validate_processor_configuration_def)
  next
    case (Inr connections_map)
    with assms False
    have v: "validate_from cfg ev connections_map 0 (procs s) (s\<lparr>inspected := False\<rparr>) = (s', r)"
      by (simp add: validate_processor_configuration_def)
    from validate_from_dirty [OF v] show ?thesis by simp
  qed
qed


text \<open>Writing back processors that were not changed leaves the document as it is.\<close>

lemma put_processor_same: "as_processor entry = Some p \<Longrightarrow> put_processor p entry = entry"
  by (auto simp: as_processor_def put_processor_def dict_set_same map_of_dict_set
        split: json.split_asm option.split_asm)

lemma put_processors_entries:
  "those (map as_processor entries) = Some ps \<Longrightarrow>
     map (\<lambda>pe. put_processor (fst pe) (snd pe)) (zip ps entries) = entries"
proof (induction entries arbitrary: ps)
  case Nil
  then show ?case by simp
next
  case (Cons entry entries)
  from Cons.prems obtain p ps' where p: "as_processor entry = Some p"
    and t: "those (map as_processor entries) = Some ps'" and ps: "ps = p # ps'"
    by (auto split: option.split_asm)
  from Cons.IH [OF t] put_processor_same [OF p] ps show ?case by simp
qed

lemma set_processors_entries: "set_processors doc (plan_entries doc ''processors'') = doc"
  by (auto simp: set_processors_def plan_entries_def dict_set_same
        split: json.splits option.splits)

lemma put_processors_same:
  assumes "as_plan doc = Some (ps, conns)"
  shows "put_processors ps doc = doc"
proof -
  from assms have "those (map as_processor (plan_entries doc ''processors'')) = Some ps"
    by (auto simp: as_plan_def split: option.split_asm if_split_asm)
  from put_processors_entries [OF this] show ?thesis
    by (simp add: put_processors_def set_processors_entries)
qed

lemma save_plan_disk:
  "write_error w (r_tick st) = None \<Longrightarrow>
     disk (save_plan w st) = Inr (r_data (save_plan w st))"
  by (simp add: save_plan_def)

lemma finish_saved:
  assumes "finish cfg w st = (Done, st')" and "\<forall>n. write_error w n = None"
    and "\<not> r_changes_made st \<longrightarrow> disk st = Inr (r_data st)"
  shows "disk st' = Inr (r_data st')"
proof (cases "truthy (r_data st)")
  case False
  with assms show ?thesis
    by (auto simp: finish_def Let_def save_plan_disk split: if_split_asm)
next
  case True
  with assms(1) obtain ps conns s' where a: "as_plan (r_data st) = Some (ps, conns)"
    and v: "validate_processor_configuration cfg (w_env w) conns
              \<lparr>procs = ps, errors = r_errors st, changes_made = r_changes_made st,
               tick = r_tick st, sandbox = r_sandbox st, sent = [], inspected = False\<rparr> = (s', None)"
    and s': "st' = (let st1 = st\<lparr>r_data := put_processors (procs s') (r_data st),
                                r_errors := errors s', r_changes_made := changes_made s',
                                r_tick := tick s', r_sandbox := sandbox s'\<rparr>
                    in if r_changes_made st1 then save_plan w st1 else st1)"
    by (auto simp: finish_def Let_def split: option.split_asm prod.split_asm)
  note d = validate_processor_configuration_dirty [OF v]
  show ?thesis
  proof (cases "changes_made s'")
    case True
    with s' assms(2) show ?thesis by (simp add: Let_def save_plan_disk)
  next
    case False
    with d have "\<not> r_changes_made st" and "procs s' = ps" by auto
    with put_processors_same [OF a] assms(3) s' False show ?thesis by (simp add: Let_def)
  qed
qed

text \<open>
  C8, as amended.  Suppose no write to the plan file fails.  When a run reaches its end
  at line 714 (whether errors remain or not), the plan file holds the document that is
  in memory: every type rewrite of the last static pass and every fix the sandbox pass
  wrote into the plan has been saved.  When a static pass leaves errors, the user asks
  for the oracle's fix and the structural fix of the oracle is accepted, the run saves
  the plan at once (line 692): it goes on from the state in which the plan file holds the
  repaired document, so the next pass loads the repaired plan.
\<close>

theorem repairs_saved:
  assumes "\<forall>n. write_error w n = None"
  shows "(\<forall>st'. run cfg w choices st = (Done, st') \<longrightarrow> disk st' = Inr (r_data st'))
       \<and> (\<forall>doc st1 st2 later.
             disk st = Inr doc
             \<and> static_pass w (st\<lparr>r_data := doc, r_errors := [], r_changes_made := False\<rparr>) = Inr st1
             \<and> r_errors st1 \<noteq> []
             \<and> resolve_structure_errors_with_llm cfg w st1 = Inr (True, st2) \<longrightarrow>
             run cfg w (FixWithLLM # later) st = run cfg w later (save_plan w st2)
             \<and> disk (save_plan w st2) = Inr (r_data st2)
             \<and> r_data (save_plan w st2) = r_data st2)"
proof
  show "\<forall>st'. run cfg w choices st = (Done, st') \<longrightarrow> disk st' = Inr (r_data st')"
  proof (induction choices arbitrary: st)
    case Nil
    show ?case
    proof (intro allI impI)
      fix st'
      assume r: "run cfg w [] st = (Done, st')"
      then obtain doc st1 where d: "disk st = Inr doc"
        and p: "static_pass w (st\<lparr>r_data := doc, r_errors := [], r_changes_made := False\<rparr>) = Inr st1"
        and f: "finish cfg w st1 = (Done, st')"
        by (auto simp: run.simps [of cfg w "[]" st] Let_def split: sum.split_asm if_split_asm)
      from static_pass_frame [OF p] static_pass_disk [OF p] d
      have "\<not> r_changes_made st1 \<longrightarrow> disk st1 = Inr (r_data st1)" by auto
      from finish_saved [OF f assms this] show "disk st' = Inr (r_data st')" .
    qed
  next
    case (Cons c later)
    show ?case
    proof (intro allI impI)
      fix st'
      assume r: "run cfg w (c # later) st = (Done, st')"
      then obtain doc st1 where d: "disk st = Inr doc"
        and p: "static_pass w (st\<lparr>r_data := doc, r_errors := [], r_changes_made := False\<rparr>) = Inr st1"
        by (auto simp: run.simps [of cfg w "c # later" st] Let_def split: sum.split_asm)
      show "disk st' = Inr (r_data st')"
      proof (cases "r_errors st1 = []")
        case True
        with r d p have f: "finish cfg w st1 = (Done, st')"
          by (simp add: run.simps [of cfg w "c # later" st] Let_def)
        from static_pass_frame [OF p] static_pass_disk [OF p] d
        have "\<not> r_changes_made st1 \<longrightarrow> disk st1 = Inr (r_data st1)" by auto
        from finish_saved [OF f assms this] show ?thesis .
      next
        case False
        with d p have u: "run cfg w (c # later) st =
            (case c of
               Retry \<Rightarrow> run cfg w later st1
             | Exit \<Rightarrow> (UserExit, st1)
             | FixWithLLM \<Rightarrow>
                 (case resolve_structure_errors_with_llm cfg w st1 of
                    Inl e \<Rightarrow> (Raised e, st1)
                  | Inr (True, st2) \<Rightarrow> run cfg w later (save_plan w st2)
                  | Inr (False, st2) \<Rightarrow> run cfg w later st2))"
          by (simp add: run.simps [of cfg w "c # later" st] Let_def split: choice.splits)
        from r [unfolded u] obtain st2 where "run cfg w later st2 = (Done, st')"
          by (cases c) (auto split: sum.split_asm prod.split_asm bool.split_asm)
        with Cons.IH show ?thesis by blast
      qed
    qed
  qed
next
  show "\<forall>doc st1 st2 later.
             disk st = Inr doc
             \<and> static_pass w (st\<lparr>r_data := doc, r_errors := [], r_changes_made := False\<rparr>) = Inr st1
             \<and> r_errors st1 \<noteq> []
             \<and> resolve_structure_errors_with_llm cfg w st1 = Inr (True, st2) \<longrightarrow>
             run cfg w (FixWithLLM # later) st = run cfg w later (save_plan w st2)
             \<and> disk (save_plan w st2) = Inr (r_data st2)
             \<and> r_data (save_plan w st2) = r_data st2"
    using assms
    by (simp add: run.simps [of cfg w "FixWithLLM # _" st] Let_def save_plan_def)
qed

theorem repairs_saved_witness:
  "fst (run with_oracle scenario_world [] (start_with dangling_plan)) = Done
   \<and> r_changes_made (snd (run with_oracle scenario_world [] (start_with dangling_plan)))
   \<and> member_strs ''type'' (plan_entries dangling_plan ''processors'') = [''GetFile'']
   \<and> member_strs ''type''
        (plan_entries (r_data (snd (run with_oracle scenario_world [] (start_with dangling_plan))))
           ''processors'')
       = [''org.apache.nifi.processors.standard.GetFile'']
   \<and> disk (snd (run with_oracle scenario_world [] (start_with dangling_plan)))
       = Inr (r_data (snd (run with_oracle scenario_world [] (start_with dangling_plan))))
   \<and> disk (start_with incomplete_plan) = Inr incomplete_plan
   \<and> static_pass structure_world
        ((start_with incomplete_plan)
           \<lparr>r_data := incomplete_plan, r_errors := [], r_changes_made := False\<rparr>)
       = Inr checked_state
   \<and> r_errors checked_state \<noteq> []
   \<and> resolve_structure_errors_with_llm with_oracle structure_world checked_state
       = Inr (True, repaired_state)
   \<and> run with_oracle structure_world [FixWithLLM] (start_with incomplete_plan)
       = run with_oracle structure_world [] (save_plan structure_world repaired_state)
   \<and> disk (save_plan structure_world repaired_state)
       = Inr (JObj [(''plan_summary'', JStr ''Read files''),
                    (''plan_details'', JObj [(''processors'', JList []), (''connections'', JList [])])])
   \<and> fst (run with_oracle structure_world [FixWithLLM] (start_with incomplete_plan)) = Done
   \<and> disk (snd (run with_oracle structure_world [FixWithLLM] (start_with incomplete_plan)))
       = Inr (JObj [(''plan_summary'', JStr ''Read files''),
                    (''plan_details'', JObj [(''processors'', JList []), (''connections'', JList [])])])"
proof -
  let ?r = "run with_oracle scenario_world [] (start_with dangling_plan)"
  let ?q = "run with_oracle structure_world [FixWithLLM] (start_with incomplete_plan)"
  have w: "\<forall>n. write_error scenario_world n = None"
    by (simp add: scenario_world_def always_def)
  have f: "fst ?r = Done" by code_simp
  then have e: "?r = (Done, snd ?r)" by (metis prod.collapse)
  have c: "r_changes_made (snd ?r)" by code_simp
  have t0: "member_strs ''type'' (plan_entries dangling_plan ''processors'') = [''GetFile'']"
    by code_simp
  have t1: "member_strs ''type'' (plan_entries (r_data (snd ?r)) ''processors'')
       = [''org.apache.nifi.processors.standard.GetFile'']" by code_simp
  from repairs_saved [OF w, of with_oracle "[]" "start_with dangling_plan"] e
  have d: "disk (snd ?r) = Inr (r_data (snd ?r))" by blast
  have v: "\<forall>n. write_error structure_world n = None"
    by (simp add: structure_world_def scenario_world_def always_def)
  have i: "disk (start_with incomplete_plan) = Inr incomplete_plan"
    by (simp add: start_with_def)
  have p: "static_pass structure_world
        ((start_with incomplete_plan)
           \<lparr>r_data := incomplete_plan, r_errors := [], r_changes_made := False\<rparr>)
       = Inr checked_state" by code_simp
  have n: "r_errors checked_state \<noteq> []" by (simp add: checked_state_def)
  have x: "resolve_structure_errors_with_llm with_oracle structure_world checked_state
       = Inr (True, repaired_state)" by code_simp
  from repairs_saved [OF v, of with_oracle "[]" "start_with incomplete_plan"] i p n x
  have s: "run with_oracle structure_world [FixWithLLM] (start_with incomplete_plan)
       = run with_oracle structure_world [] (save_plan structure_world repaired_state)
     \<and> disk (save_plan structure_world repaired_state) = Inr (r_data repaired_state)"
    by blast
  have y: "r_data repaired_state
       = JObj [(''plan_summary'', JStr ''Read files''),
               (''plan_details'', JObj [(''processors'', JList []), (''connections'', JList [])])]"
    by (simp add: repaired_state_def)
  have g: "fst ?q = Done" by code_simp
  have h: "disk (snd ?q)
       = Inr (JObj [(''plan_summary'', JStr ''Read files''),
                    (''plan_details'', JObj [(''processors'', JList []), (''connections'', JList [])])])"
    by code_simp
  from f c t0 t1 d i p n x s y g h show ?thesis by simp
qed

text \<open>
  The claim as first stated fails for a type rewrite made in a static pass that ends
  with errors: the first processor's type is rewritten in memory and the plan is marked
  dirty, the second processor's type does not exist, and the user exits, or retries and
  then exits; the plan file still holds the short type name.
\<close>

theorem type_rewrite_not_saved_counterexample:
  "fst (run with_oracle scenario_world [Exit] (start_with rewrite_plan)) = UserExit
   \<and> r_changes_made (snd (run with_oracle scenario_world [Exit] (start_with rewrite_plan)))
   \<and> member_strs ''type''
        (plan_entries (r_data (snd (run with_oracle scenario_world [Exit] (start_with rewrite_plan))))
           ''processors'')
       = [''org.apache.nifi.processors.standard.GetFile'', ''NoSuchProcessor'']
   \<and> disk (snd (run with_oracle scenario_world [Exit] (start_with rewrite_plan))) = Inr rewrite_plan
   \<and> member_strs ''type'' (plan_entries rewrite_plan ''processors'')
       = [''GetFile'', ''NoSuchProcessor'']
   \<and> fst (run with_oracle scenario_world [Retry, Exit] (start_with rewrite_plan)) = UserExit
   \<and> disk (snd (run with_oracle scenario_world [Retry, Exit] (start_with rewrite_plan)))
       = Inr rewrite_plan"
  by code_simp

end
